theory Spec2Isabelle
  imports Complex_Main
begin

section \<open>Numbers, errors and array primitives\<close>

text \<open>
  A JavaScript \<^verbatim>\<open>number\<close> is modelled as a real number or \<open>NaN\<close>. \<open>NaN\<close> is what
  arithmetic yields as soon as one operand is \<^verbatim>\<open>undefined\<close> (an array read past the end)
  or \<open>NaN\<close>. Rounding and overflow of IEEE doubles are not modelled: the arithmetic on
  \<open>Val\<close> is exact, and there are no infinities. The properties below do not lean on
  this: they are about lengths and errors, they compare two results of the same
  arithmetic operations, or they evaluate the code on small integers.
\<close>

datatype number = Val real | NaN

text \<open>
  The failures of the library: the three \<^verbatim>\<open>throw new Error(...)\<close> messages (input or
  target against a layer, two parallel lists of different length, the alpha of leaky
  ReLU) and the \<^verbatim>\<open>TypeError\<close> the runtime raises when a property of \<^verbatim>\<open>undefined\<close> is
  read or an empty array is reduced without an initial value.
\<close>

datatype error = DimensionMismatch | LengthMismatch | InvalidAlpha | TypeError

fun num_add :: "number \<Rightarrow> number \<Rightarrow> number" where
  "num_add (Val x) (Val y) = Val (x + y)"
| "num_add _ _ = NaN"

fun num_sub :: "number \<Rightarrow> number \<Rightarrow> number" where
  "num_sub (Val x) (Val y) = Val (x - y)"
| "num_sub _ _ = NaN"

fun num_mul :: "number \<Rightarrow> number \<Rightarrow> number" where
  "num_mul (Val x) (Val y) = Val (x * y)"
| "num_mul _ _ = NaN"

text \<open>
  Division. A zero divisor (\<open>\<plusminus>Infinity\<close> or \<open>NaN\<close> in JavaScript) never occurs in the
  program: the divisors are \<open>1 + e\<^sup>-\<^sup>x\<close> and the size of a non-empty batch.
\<close>

fun num_div :: "number \<Rightarrow> number \<Rightarrow> number" where
  "num_div (Val x) (Val y) = (if y = 0 then NaN else Val (x / y))"
| "num_div _ _ = NaN"

fun num_neg :: "number \<Rightarrow> number" where
  "num_neg (Val x) = Val (- x)"
| "num_neg NaN = NaN"

text \<open>\<^verbatim>\<open>Math.pow(x, 2)\<close>, \<^verbatim>\<open>Math.exp\<close>, \<^verbatim>\<open>Math.log\<close> and \<^verbatim>\<open>Math.max\<close>.\<close>

fun Math_pow2 :: "number \<Rightarrow> number" where
  "Math_pow2 (Val x) = Val (x ^ 2)"
| "Math_pow2 NaN = NaN"

fun Math_exp :: "number \<Rightarrow> number" where
  "Math_exp (Val x) = Val (exp x)"
| "Math_exp NaN = NaN"

fun Math_log :: "number \<Rightarrow> number" where
  "Math_log (Val x) = (if 0 < x then Val (ln x) else NaN)"
| "Math_log NaN = NaN"

fun Math_max :: "number \<Rightarrow> number \<Rightarrow> number" where
  "Math_max (Val x) (Val y) = Val (max x y)"
| "Math_max _ _ = NaN"

text \<open>The comparisons \<^verbatim>\<open>x >= y\<close> and \<^verbatim>\<open>x <= y\<close>: false as soon as one side is \<open>NaN\<close>.\<close>

fun num_ge :: "number \<Rightarrow> number \<Rightarrow> bool" where
  "num_ge (Val x) (Val y) = (y \<le> x)"
| "num_ge _ _ = False"

fun num_le :: "number \<Rightarrow> number \<Rightarrow> bool" where
  "num_le (Val x) (Val y) = (x \<le> y)"
| "num_le _ _ = False"

text \<open>Sequencing of computations that may throw: the first error wins.\<close>

fun and_then :: "error + 'a \<Rightarrow> ('a \<Rightarrow> error + 'b) \<Rightarrow> error + 'b" where
  "and_then (Inl e) f = Inl e"
| "and_then (Inr x) f = f x"

text \<open>
  Two ways an array element is read. \<open>lookup xs i\<close> is \<^verbatim>\<open>xs[i]\<close> whose value is then
  dereferenced (indexed, or asked for a property): \<^verbatim>\<open>undefined\<close> there is a
  \<^verbatim>\<open>TypeError\<close>. \<open>num_at xs i\<close> is \<^verbatim>\<open>xs[i]\<close> used as an operand of arithmetic:
  \<^verbatim>\<open>undefined\<close> there becomes \<open>NaN\<close>.
\<close>

definition lookup :: "'a list \<Rightarrow> nat \<Rightarrow> error + 'a" where
  "lookup xs i = (if i < length xs then Inr (xs ! i) else Inl TypeError)"

definition num_at :: "number list \<Rightarrow> nat \<Rightarrow> number" where
  "num_at xs i = (if i < length xs then xs ! i else NaN)"

text \<open>
  \<^verbatim>\<open>xs.map((x, i) => ...)\<close>: the callback receives the element and its index. \<open>Array_map\<close>
  is the map with a callback that cannot throw, \<open>Array_mapE\<close> the map with a callback
  that can (the first throw ends the map).
\<close>

primrec map_from :: "nat \<Rightarrow> ('a \<Rightarrow> nat \<Rightarrow> 'b) \<Rightarrow> 'a list \<Rightarrow> 'b list" where
  "map_from i f [] = []"
| "map_from i f (x # xs) = f x i # map_from (Suc i) f xs"

definition Array_map :: "('a \<Rightarrow> nat \<Rightarrow> 'b) \<Rightarrow> 'a list \<Rightarrow> 'b list" where
  "Array_map f xs = map_from 0 f xs"

primrec mapE_from :: "nat \<Rightarrow> ('a \<Rightarrow> nat \<Rightarrow> error + 'b) \<Rightarrow> 'a list \<Rightarrow> error + 'b list" where
  "mapE_from i f [] = Inr []"
| "mapE_from i f (x # xs) =
     (case f x i of
        Inl e \<Rightarrow> Inl e
      | Inr y \<Rightarrow> (case mapE_from (Suc i) f xs of Inl e \<Rightarrow> Inl e | Inr ys \<Rightarrow> Inr (y # ys)))"

definition Array_mapE :: "('a \<Rightarrow> nat \<Rightarrow> error + 'b) \<Rightarrow> 'a list \<Rightarrow> error + 'b list" where
  "Array_mapE f xs = mapE_from 0 f xs"

text \<open>
  \<^verbatim>\<open>xs.reduce((acc, x, i) => ..., init)\<close> and the reduction without an initial value,
  \<^verbatim>\<open>xs.reduce((acc, x, i) => ...)\<close>: it starts from \<^verbatim>\<open>xs[0]\<close>, calls the callback from
  index 1 on, and throws a \<^verbatim>\<open>TypeError\<close> on the empty array.
\<close>

primrec reduce_from :: "nat \<Rightarrow> ('b \<Rightarrow> 'a \<Rightarrow> nat \<Rightarrow> 'b) \<Rightarrow> 'b \<Rightarrow> 'a list \<Rightarrow> 'b" where
  "reduce_from i f acc [] = acc"
| "reduce_from i f acc (x # xs) = reduce_from (Suc i) f (f acc x i) xs"

definition reduce :: "('b \<Rightarrow> 'a \<Rightarrow> nat \<Rightarrow> 'b) \<Rightarrow> 'b \<Rightarrow> 'a list \<Rightarrow> 'b" where
  "reduce f init xs = reduce_from 0 f init xs"

definition reduce1 :: "('a \<Rightarrow> 'a \<Rightarrow> nat \<Rightarrow> 'a) \<Rightarrow> 'a list \<Rightarrow> error + 'a" where
  "reduce1 f xs = (case xs of [] \<Rightarrow> Inl TypeError | x # rest \<Rightarrow> Inr (reduce_from 1 f x rest))"

primrec reduceE_from :: "nat \<Rightarrow> ('a \<Rightarrow> 'a \<Rightarrow> nat \<Rightarrow> error + 'a) \<Rightarrow> 'a \<Rightarrow> 'a list \<Rightarrow> error + 'a" where
  "reduceE_from i f acc [] = Inr acc"
| "reduceE_from i f acc (x # xs) =
     (case f acc x i of Inl e \<Rightarrow> Inl e | Inr acc' \<Rightarrow> reduceE_from (Suc i) f acc' xs)"

definition reduce1E :: "('a \<Rightarrow> 'a \<Rightarrow> nat \<Rightarrow> error + 'a) \<Rightarrow> 'a list \<Rightarrow> error + 'a" where
  "reduce1E f xs = (case xs of [] \<Rightarrow> Inl TypeError | x # rest \<Rightarrow> reduceE_from 1 f x rest)"

section \<open>Activation functions\<close>

record Activation =
  activation :: "number \<Rightarrow> number"
  dActivation :: "number \<Rightarrow> number"

definition sigmoid_activation :: "number \<Rightarrow> number" where
  "sigmoid_activation x = num_div (Val 1) (num_add (Val 1) (Math_exp (num_neg x)))"

definition sigmoid_dActivation :: "number \<Rightarrow> number" where
  "sigmoid_dActivation x = (let sg = sigmoid_activation x in num_mul sg (num_sub (Val 1) sg))"

definition sigmoid :: Activation where
  "sigmoid = \<lparr>activation = sigmoid_activation, dActivation = sigmoid_dActivation\<rparr>"

definition reLU :: Activation where
  "reLU = \<lparr>activation = (\<lambda>x. Math_max (Val 0) x),
           dActivation = (\<lambda>x. if num_ge x (Val 0) then Val 1 else Val 0)\<rparr>"

text \<open>\<^verbatim>\<open>leakyReLU(alpha)\<close>; called without an argument, \<open>alpha\<close> is \<open>0.01\<close>.\<close>

definition leakyReLU :: "number \<Rightarrow> error + Activation" where
  "leakyReLU alpha =
     (if num_ge alpha (Val 1) \<or> num_le alpha (Val 0) then Inl InvalidAlpha
      else Inr \<lparr>activation = (\<lambda>x. Math_max x (num_mul alpha x)),
                dActivation = (\<lambda>x. if num_ge x (Val 0) then Val 1 else alpha)\<rparr>)"

definition linear_act :: Activation where
  "linear_act = \<lparr>activation = (\<lambda>x. x), dActivation = (\<lambda>x. Val 1)\<rparr>"

definition tanh_act :: Activation where
  "tanh_act = \<lparr>activation = (\<lambda>x. num_sub (num_mul (Val 2) (sigmoid_activation (num_mul (Val 2) x))) (Val 1)),
               dActivation = (\<lambda>x. num_mul (Val 4) (sigmoid_dActivation (num_mul (Val 2) x)))\<rparr>"

definition softPlus :: Activation where
  "softPlus = \<lparr>activation = (\<lambda>x. Math_log (num_add (Val 1) (Math_exp x))),
               dActivation = (\<lambda>x. sigmoid_activation x)\<rparr>"

section \<open>The network\<close>

record Network =
  weights :: "number list list list"
  biases :: "number list list"
  activations :: "Activation list"

record Gradient =
  nabla_w :: "number list list list"
  nabla_b :: "number list list"

subsection \<open>Construction\<close>

text \<open>
  \<^verbatim>\<open>Math.random()\<close> is a parameter: \<open>rnd n\<close> is the value of its \<open>n\<close>-th call, and the
  counter of calls is threaded through the constructor. \<open>random u\<close> is the helper
  \<^verbatim>\<open>random()\<close> (with its defaults \<^verbatim>\<open>min = -1\<close>, \<^verbatim>\<open>max = 1\<close>) on the draw \<open>u\<close>.
  \<open>random_array rnd c n\<close> is \<^verbatim>\<open>Array.from({ length: n }, () => random())\<close> starting at
  call \<open>c\<close>; a matrix of \<open>rows\<close> rows draws the rows one after the other, \<open>cols\<close>
  calls each. Layer sizes are natural numbers.
\<close>

definition random :: "real \<Rightarrow> number" where
  "random u = Val (u * (1 - (- 1)) + (- 1))"

definition random_array :: "(nat \<Rightarrow> real) \<Rightarrow> nat \<Rightarrow> nat \<Rightarrow> number list" where
  "random_array rnd c n = map (\<lambda>i. random (rnd (c + i))) [0..<n]"

definition random_matrix :: "(nat \<Rightarrow> real) \<Rightarrow> nat \<Rightarrow> nat \<Rightarrow> nat \<Rightarrow> number list list" where
  "random_matrix rnd c rows cols = map (\<lambda>i. random_array rnd (c + i * cols) cols) [0..<rows]"

text \<open>
  The two \<^verbatim>\<open>layers.map\<close> of the constructor, from layer 1 on: \<open>prev\<close> is the size of
  the layer before. Layer 0 gets the empty array in both.
\<close>

fun init_weights ::
  "(nat \<Rightarrow> real) \<Rightarrow> nat \<Rightarrow> nat \<Rightarrow> (nat \<times> Activation) list \<Rightarrow> number list list list \<times> nat" where
  "init_weights rnd c prev [] = ([], c)"
| "init_weights rnd c prev ((layerSize, act) # rest) =
     (let (ms, c') = init_weights rnd (c + layerSize * prev) layerSize rest
      in (random_matrix rnd c layerSize prev # ms, c'))"

fun init_biases ::
  "(nat \<Rightarrow> real) \<Rightarrow> nat \<Rightarrow> (nat \<times> Activation) list \<Rightarrow> number list list \<times> nat" where
  "init_biases rnd c [] = ([], c)"
| "init_biases rnd c ((layerSize, act) # rest) =
     (let (bs, c') = init_biases rnd (c + layerSize) rest
      in (random_array rnd c layerSize # bs, c'))"

definition new_Network :: "(nat \<Rightarrow> real) \<Rightarrow> (nat \<times> Activation) list \<Rightarrow> Network" where
  "new_Network rnd layers =
     (case layers of
        [] \<Rightarrow> \<lparr>weights = [], biases = [], activations = []\<rparr>
      | (size0, act0) # rest \<Rightarrow>
          (let (ws, c1) = init_weights rnd 0 size0 rest;
               (bs, c2) = init_biases rnd c1 rest
           in \<lparr>weights = [] # ws, biases = [] # bs, activations = map snd layers\<rparr>))"

subsection \<open>Forward propagation\<close>

text \<open>
  One pass of the loop body of \<^verbatim>\<open>getOutput\<close>: the new \<^verbatim>\<open>a[k]\<close>. The loop runs with
  \<open>1 \<le> k < length (biases net)\<close> and \<open>a\<close> has one entry per entry of \<open>biases\<close>, so
  \<^verbatim>\<open>this.biases[k]\<close> and \<^verbatim>\<open>a[k - 1]\<close> exist; \<^verbatim>\<open>this.weights[k][j]\<close> and
  \<^verbatim>\<open>this.activations[k]\<close> may not.
\<close>

definition layer_output :: "Network \<Rightarrow> number list list \<Rightarrow> nat \<Rightarrow> error + number list" where
  "layer_output net a k =
     Array_mapE (\<lambda>b j.
        and_then (lookup (weights net) k) (\<lambda>wk.
        and_then (lookup wk j) (\<lambda>row.
        and_then (lookup (activations net) k) (\<lambda>act.
          let z = num_add (reduce (\<lambda>sum w i. num_add sum (num_mul w (num_at (a ! (k - 1)) i))) (Val 0) row) b
          in Inr (activation act z)))))
      (biases net ! k)"

function getOutput_loop :: "Network \<Rightarrow> number list list \<Rightarrow> nat \<Rightarrow> error + number list list" where
  "getOutput_loop net a k =
     (if k < length (biases net) then
        (case layer_output net a k of
           Inl e \<Rightarrow> Inl e
         | Inr v \<Rightarrow> getOutput_loop net (a[k := v]) (k + 1))
      else Inr a)"
  by pat_completeness auto
termination
  by (relation "measure (\<lambda>(net, a, k). length (biases net) - k)") auto

definition getOutput :: "Network \<Rightarrow> number list \<Rightarrow> error + number list list" where
  "getOutput net input =
     and_then (lookup (biases net) 0) (\<lambda>b0.
       if length b0 \<noteq> length input then Inl DimensionMismatch
       else getOutput_loop net ((map (map (\<lambda>_. Val 0)) (biases net))[0 := input]) 1)"

subsection \<open>Cost\<close>

text \<open>
  \<^verbatim>\<open>getCost\<close>. After the two checks \<open>biases\<close> is not empty, so \<^verbatim>\<open>this.biases[L - 1]\<close>
  exists, and the result of \<^verbatim>\<open>getOutput\<close> has \<open>L\<close> entries. The reduction of line 85
  has no initial value.
\<close>

definition getCost :: "Network \<Rightarrow> number list \<Rightarrow> number list \<Rightarrow> error + number" where
  "getCost net input target =
     and_then (lookup (biases net) 0) (\<lambda>b0.
       if length b0 \<noteq> length input then Inl DimensionMismatch
       else
         (let L = length (biases net) in
          if length (biases net ! (L - 1)) \<noteq> length target then Inl DimensionMismatch
          else
            and_then (getOutput net input) (\<lambda>a.
              reduce1 (\<lambda>sum output i. num_add sum (Math_pow2 (num_sub output (num_at target i))))
                (a ! (L - 1)))))"

subsection \<open>Backpropagation\<close>

text \<open>
  \<^verbatim>\<open>outputToZ\<close> is only called by \<^verbatim>\<open>getGradient\<close>, with the result of \<^verbatim>\<open>getOutput\<close> as
  \<open>a\<close> and a layer index below its length, so \<^verbatim>\<open>a[layerIndex - 1]\<close> exists.
\<close>

definition outputToZ ::
  "number list list \<Rightarrow> number list list list \<Rightarrow> number list list \<Rightarrow> nat \<Rightarrow> nat \<Rightarrow> error + number" where
  "outputToZ a ws bs layerIndex neuronIndex =
     (if layerIndex \<le> 0 then Inr (Val 0)
      else
        and_then (lookup ws layerIndex) (\<lambda>wl.
        and_then (lookup wl neuronIndex) (\<lambda>row.
        and_then (lookup bs layerIndex) (\<lambda>bl.
          Inr (num_add
                 (reduce (\<lambda>sum w i. num_add sum (num_mul w (num_at (a ! (layerIndex - 1)) i))) (Val 0) row)
                 (num_at bl neuronIndex))))))"

text \<open>The three local arrays of \<^verbatim>\<open>getGradient\<close>: \<open>nabla_w\<close>, \<open>nabla_b\<close> and \<open>dCda\<close>.\<close>

record Backward = Gradient +
  dCda :: "number list list"

text \<open>
  The body of the backward loop at index \<open>k\<close> (lines 98 to 102). At \<open>k = 0\<close> the
  expression \<^verbatim>\<open>a[k - 1][j]\<close> reads \<^verbatim>\<open>a[-1]\<close>, which is \<^verbatim>\<open>undefined\<close>: a \<^verbatim>\<open>TypeError\<close>
  if \<^verbatim>\<open>this.weights[0]\<close> has an entry to map over.
\<close>

definition backward_step :: "Network \<Rightarrow> number list list \<Rightarrow> nat \<Rightarrow> Backward \<Rightarrow> error + Backward" where
  "backward_step net a k st =
     and_then
       (Array_mapE (\<lambda>dC j.
          and_then (lookup (activations net) k) (\<lambda>act.
          and_then (outputToZ a (weights net) (biases net) k j) (\<lambda>z.
            Inr (num_mul dC (dActivation act z)))))
        (dCda st ! k)) (\<lambda>nabla_b_k.
     and_then (lookup (weights net) k) (\<lambda>wk.
     and_then
       (Array_mapE (\<lambda>row i.
          Array_mapE (\<lambda>_ j.
            and_then (if k = 0 then Inl TypeError else Inr (a ! (k - 1))) (\<lambda>prev.
              Inr (num_mul (num_at nabla_b_k i) (num_at prev j))))
          row)
        wk) (\<lambda>nabla_w_k.
     if k > 0 then
       and_then
         (reduce1 (\<lambda>sum nw _. Array_map (\<lambda>s i. num_add s (num_mul (num_at nw i) (num_at nabla_b_k i))) sum)
            nabla_w_k) (\<lambda>d.
         Inr (st\<lparr>nabla_w := (nabla_w st)[k := nabla_w_k],
                 nabla_b := (nabla_b st)[k := nabla_b_k],
                 dCda := (dCda st)[k - 1 := d]\<rparr>))
     else
       Inr (st\<lparr>nabla_w := (nabla_w st)[k := nabla_w_k],
               nabla_b := (nabla_b st)[k := nabla_b_k]\<rparr>))))"

text \<open>
  \<^verbatim>\<open>for (let k = L - 1; k >= 0; k--)\<close>: \<open>backward_loop net a n st\<close> runs the body at
  \<open>k = n - 1, ..., 0\<close>.
\<close>

primrec backward_loop :: "Network \<Rightarrow> number list list \<Rightarrow> nat \<Rightarrow> Backward \<Rightarrow> error + Backward" where
  "backward_loop net a 0 st = Inr st"
| "backward_loop net a (Suc k) st =
     (case backward_step net a k st of
        Inl e \<Rightarrow> Inl e
      | Inr st' \<Rightarrow> backward_loop net a k st')"

definition backward_init :: "Network \<Rightarrow> number list list \<Rightarrow> number list \<Rightarrow> Backward" where
  "backward_init net a target =
     (let L = length (biases net) in
      \<lparr>nabla_w = map (map (map (\<lambda>_. Val 0))) (weights net),
       nabla_b = map (map (\<lambda>_. Val 0)) (biases net),
       dCda = (map (map (\<lambda>_. Val 0)) (biases net))
                [L - 1 := Array_map (\<lambda>output i. num_mul (Val 2) (num_sub output (num_at target i))) (a ! (L - 1))]\<rparr>)"

definition getGradient :: "Network \<Rightarrow> number list \<Rightarrow> number list \<Rightarrow> error + Gradient" where
  "getGradient net input target =
     and_then (lookup (biases net) 0) (\<lambda>b0.
       if length b0 \<noteq> length input then Inl DimensionMismatch
       else
         (let L = length (biases net) in
          if length (biases net ! (L - 1)) \<noteq> length target then Inl DimensionMismatch
          else
            and_then (getOutput net input) (\<lambda>a.
            and_then (backward_loop net a L (backward_init net a target)) (\<lambda>st.
              Inr \<lparr>nabla_w = nabla_w st, nabla_b = nabla_b st\<rparr>))))"

subsection \<open>Mean gradient of a batch\<close>

text \<open>The callback of the reduction of line 114: the sum so far plus one gradient.\<close>

definition add_gradient :: "Gradient \<Rightarrow> Gradient \<Rightarrow> error + Gradient" where
  "add_gradient acc g =
     and_then
       (Array_mapE (\<lambda>s k. Array_mapE (\<lambda>s1 i. Array_mapE (\<lambda>s2 j.
          and_then (lookup (nabla_w g) k) (\<lambda>gk.
          and_then (lookup gk i) (\<lambda>gki.
            Inr (num_add s2 (num_at gki j))))) s1) s) (nabla_w acc)) (\<lambda>w.
     and_then
       (Array_mapE (\<lambda>s k. Array_mapE (\<lambda>s1 i.
          and_then (lookup (nabla_b g) k) (\<lambda>gk.
            Inr (num_add s1 (num_at gk i)))) s) (nabla_b acc)) (\<lambda>b.
     Inr \<lparr>nabla_w = w, nabla_b = b\<rparr>))"

definition getMeanGradient ::
  "Network \<Rightarrow> number list list \<Rightarrow> number list list \<Rightarrow> error + Gradient" where
  "getMeanGradient net input target =
     (if length input \<noteq> length target then Inl LengthMismatch
      else
        (let total = length input in
         and_then (Array_mapE (\<lambda>i n. getGradient net i (target ! n)) input) (\<lambda>gradients.
         and_then (reduce1E (\<lambda>sum g _. add_gradient sum g) gradients) (\<lambda>totalGradient.
           Inr \<lparr>nabla_w = map (map (map (\<lambda>j. num_div j (Val (real total))))) (nabla_w totalGradient),
                nabla_b = map (map (\<lambda>i. num_div i (Val (real total)))) (nabla_b totalGradient)\<rparr>))))"

subsection \<open>Gradient descent\<close>

text \<open>The two assignments of lines 132 and 133.\<close>

definition subtract_weights ::
  "number list list list \<Rightarrow> number list list list \<Rightarrow> error + number list list list" where
  "subtract_weights ws nw =
     Array_mapE (\<lambda>w0 k. Array_mapE (\<lambda>w1 i. Array_mapE (\<lambda>w j.
       and_then (lookup nw k) (\<lambda>nk.
       and_then (lookup nk i) (\<lambda>nki.
         Inr (num_sub w (num_at nki j))))) w1) w0) ws"

definition subtract_biases :: "number list list \<Rightarrow> number list list \<Rightarrow> error + number list list" where
  "subtract_biases bs nb =
     Array_mapE (\<lambda>b0 k. Array_mapE (\<lambda>b i.
       and_then (lookup nb k) (\<lambda>nk.
         Inr (num_sub b (num_at nk i)))) b0) bs"

text \<open>
  \<^verbatim>\<open>gradientDescend\<close> returns nothing and mutates the network: the model returns the
  error thrown, if any, and the network as the call leaves it. The loop reads
  \<^verbatim>\<open>input[n]\<close> and \<^verbatim>\<open>target[n]\<close> with \<open>n\<close> below the common length of the two lists.
\<close>

function gradientDescend_loop ::
  "Network \<Rightarrow> number list list list \<Rightarrow> number list list list \<Rightarrow> nat \<Rightarrow> error option \<times> Network" where
  "gradientDescend_loop net input target n =
     (if n < length input then
        (case getMeanGradient net (input ! n) (target ! n) of
           Inl e \<Rightarrow> (Some e, net)
         | Inr g \<Rightarrow>
             (case subtract_weights (weights net) (nabla_w g) of
                Inl e \<Rightarrow> (Some e, net)
              | Inr w' \<Rightarrow>
                  (case subtract_biases (biases net) (nabla_b g) of
                     Inl e \<Rightarrow> (Some e, net\<lparr>weights := w'\<rparr>)
                   | Inr b' \<Rightarrow> gradientDescend_loop (net\<lparr>weights := w', biases := b'\<rparr>) input target (n + 1))))
      else (None, net))"
  by pat_completeness auto
termination
  by (relation "measure (\<lambda>(net, input, target, n). length input - n)") auto

definition gradientDescend ::
  "Network \<Rightarrow> number list list list \<Rightarrow> number list list list \<Rightarrow> error option \<times> Network" where
  "gradientDescend net input target =
     (if length input \<noteq> length target then (Some LengthMismatch, net)
      else gradientDescend_loop net input target 0)"

subsection \<open>Gradient descent, in the words of the specification\<close>

text \<open>
  The update of one batch as the specification words it: the mean gradient is
  subtracted entry by entry, unscaled, from the weights and the biases. The batches
  are taken in the order given, each against the network the batch before left.
\<close>

definition spec_subtract_gradient :: "Network \<Rightarrow> Gradient \<Rightarrow> Network" where
  "spec_subtract_gradient net g =
     net\<lparr>weights := map2 (map2 (map2 num_sub)) (weights net) (nabla_w g),
         biases := map2 (map2 num_sub) (biases net) (nabla_b g)\<rparr>"

fun spec_gradientDescend ::
  "Network \<Rightarrow> (number list list \<times> number list list) list \<Rightarrow> error option \<times> Network" where
  "spec_gradientDescend net [] = (None, net)"
| "spec_gradientDescend net ((inputs, targets) # rest) =
     (case getMeanGradient net inputs targets of
        Inl e \<Rightarrow> (Some e, net)
      | Inr g \<Rightarrow> spec_gradientDescend (spec_subtract_gradient net g) rest)"

text \<open>
  The error propagated to layer \<open>k - 1\<close> as the specification words it:
  \<open>\<Sum>\<^sub>i delta[k][i] * weights[k][i][j]\<close>.
\<close>

definition spec_propagated_error :: "number list \<Rightarrow> number list list \<Rightarrow> nat \<Rightarrow> number" where
  "spec_propagated_error delta wk j =
     reduce (\<lambda>sum row i. num_add sum (num_mul (num_at delta i) (num_at row j))) (Val 0) wk"

subsection \<open>Shape invariants\<close>

text \<open>
  The invariants of the data model for a topology with layer sizes \<open>sizes\<close>: one entry
  per layer in \<open>weights\<close>, \<open>biases\<close> and \<open>activations\<close>; nothing at layer 0; from layer 1
  on, one row of weights per neuron, one weight per neuron of the layer before, and
  one bias per neuron.
\<close>

definition network_inv :: "nat list \<Rightarrow> Network \<Rightarrow> bool" where
  "network_inv sizes net \<longleftrightarrow>
     sizes \<noteq> [] \<and>
     length (weights net) = length sizes \<and>
     length (biases net) = length sizes \<and>
     length (activations net) = length sizes \<and>
     weights net ! 0 = [] \<and>
     biases net ! 0 = [] \<and>
     (\<forall>k. 1 \<le> k \<and> k < length sizes \<longrightarrow>
        length (weights net ! k) = sizes ! k \<and>
        (\<forall>row \<in> set (weights net ! k). length row = sizes ! (k - 1)) \<and>
        length (biases net ! k) = sizes ! k)"

subsection \<open>Example networks\<close>

text \<open>
  The network of the concrete scenario: layers \<^verbatim>\<open>[2, linear], [1, linear]\<close>, then
  \<^verbatim>\<open>weights[1] = [[1, 1]]\<close> and \<^verbatim>\<open>biases[1] = [0]\<close>.
\<close>

definition scenario_net :: "(nat \<Rightarrow> real) \<Rightarrow> Network" where
  "scenario_net rnd =
     (let n = new_Network rnd [(2, linear_act), (1, linear_act)]
      in n\<lparr>weights := (weights n)[1 := [[Val 1, Val 1]]],
           biases := (biases n)[1 := [Val 0]]\<rparr>)"

text \<open>
  A network whose input layer has no neuron, the only kind whose checks accept an
  input of the length of the input layer: layers \<^verbatim>\<open>[0, linear], [2, linear], [1, linear]\<close>,
  then \<^verbatim>\<open>biases[1] = [1, 2]\<close>, \<^verbatim>\<open>weights[2] = [[1, 1]]\<close> and \<^verbatim>\<open>biases[2] = [0]\<close>. Its
  hidden layer outputs \<open>[1, 2]\<close> and its output layer \<open>[3]\<close>.
\<close>

definition no_input_net :: "(nat \<Rightarrow> real) \<Rightarrow> Network" where
  "no_input_net rnd =
     (let n = new_Network rnd [(0, linear_act), (2, linear_act), (1, linear_act)]
      in n\<lparr>weights := (weights n)[2 := [[Val 1, Val 1]]],
           biases := (biases n)[1 := [Val 1, Val 2], 2 := [Val 0]]\<rparr>)"

text \<open>A sequence of draws of \<^verbatim>\<open>Math.random()\<close>, for closed examples.\<close>

definition fixed_draws :: "nat \<Rightarrow> real" where
  "fixed_draws n = 1 / 2"

section \<open>Properties\<close>

subsection \<open>Auxiliary facts on numbers and arrays\<close>

lemma num_div_one: "num_div x (Val 1) = x"
  by (cases x) simp_all

lemma and_then_Inr_iff: "(and_then r f = Inr y) = (\<exists>x. r = Inr x \<and> f x = Inr y)"
  by (cases r) simp_all

lemma lookup_Inr_iff: "(lookup xs i = Inr x) = (i < length xs \<and> x = xs ! i)"
  by (auto simp: lookup_def)
lemma mapE_from_length: "mapE_from i f xs = Inr ys \<Longrightarrow> length ys = length xs"
  by (induction xs arbitrary: i ys) (auto split: sum.splits)

lemma map_from_length: "length (map_from i f xs) = length xs"
  by (induction xs arbitrary: i) auto

lemma mapE_from_all2:
  "mapE_from i f xs = Inr ys \<Longrightarrow> (\<And>x n y. x \<in> set xs \<Longrightarrow> f x n = Inr y \<Longrightarrow> R x y) \<Longrightarrow> list_all2 R xs ys"
proof (induction xs arbitrary: i ys)
  case Nil
  then show ?case by simp
next
  case (Cons x xs)
  from Cons.prems(1) obtain y ys' where y: "f x i = Inr y" and ys': "mapE_from (Suc i) f xs = Inr ys'"
    and ys: "ys = y # ys'"
    by (auto split: sum.splits)
  from Cons.IH[OF ys'] Cons.prems(2) have "list_all2 R xs ys'" by simp
  moreover from Cons.prems(2)[OF _ y] have "R x y" by simp
  ultimately show ?case by (simp add: ys)
qed

lemma all2_length_shape: "list_all2 (\<lambda>x y. length y = length x) xs ys \<Longrightarrow> map length ys = map length xs"
  by (induction rule: list_all2_induct) simp_all

lemma all2_rows_shape:
  "list_all2 (\<lambda>x y. map length y = map length x) xs ys \<Longrightarrow> map (map length) ys = map (map length) xs"
  by (induction rule: list_all2_induct) simp_all

lemma mapE_rows_length:
  "mapE_from i (\<lambda>row n. mapE_from j (g row n) row) xs = Inr ys \<Longrightarrow> map length ys = map length xs"
  by (rule all2_length_shape, erule mapE_from_all2) (rule mapE_from_length)

lemma mapE_matrices_shape:
  "mapE_from i (\<lambda>m k. mapE_from j (\<lambda>row n. mapE_from l (g m k row n) row) m) xs = Inr ys \<Longrightarrow>
     map (map length) ys = map (map length) xs"
  by (rule all2_rows_shape, erule mapE_from_all2) (rule mapE_rows_length)

lemma map_length_update_same:
  "map length xs = map length ys \<Longrightarrow> k < length ys \<Longrightarrow> length v = length (ys ! k) \<Longrightarrow>
     map length (xs[k := v]) = map length ys"
  by (metis length_map list_update_id map_update nth_map)

lemma map_rows_update_same:
  "map (map length) xs = map (map length) ys \<Longrightarrow> k < length ys \<Longrightarrow> map length v = map length (ys ! k) \<Longrightarrow>
     map (map length) (xs[k := v]) = map (map length) ys"
  by (metis length_map list_update_id map_update nth_map)

lemma mapE_from_zip:
  "length xs \<le> length zs \<Longrightarrow>
   (\<And>n. n < length xs \<Longrightarrow> f (xs ! n) (i + n) = Inr (g (xs ! n) (zs ! n))) \<Longrightarrow>
   mapE_from i f xs = Inr (map2 g xs zs)"
proof (induction xs arbitrary: i zs)
  case Nil
  then show ?case by simp
next
  case (Cons x xs)
  from Cons.prems(1) obtain z zs' where zs: "zs = z # zs'" by (cases zs) auto
  from Cons.prems(2)[of 0] have hd: "f x i = Inr (g x z)" by (simp add: zs)
  have "mapE_from (Suc i) f xs = Inr (map2 g xs zs')"
  proof (rule Cons.IH)
    show "length xs \<le> length zs'" using Cons.prems(1) by (simp add: zs)
    fix n assume "n < length xs"
    with Cons.prems(2)[of "Suc n"] show "f (xs ! n) (Suc i + n) = Inr (g (xs ! n) (zs' ! n))"
      by (simp add: zs)
  qed
  with hd show ?case by (simp add: zs)
qed

lemma mapE_from_eq_pure:
  "(\<And>n. n < length xs \<Longrightarrow> f (xs ! n) (i + n) = Inr (g (xs ! n) (i + n))) \<Longrightarrow>
     mapE_from i f xs = Inr (map_from i g xs)"
proof (induction xs arbitrary: i)
  case Nil
  then show ?case by simp
next
  case (Cons x xs)
  from Cons.prems[of 0] have hd: "f x i = Inr (g x i)" by simp
  have "mapE_from (Suc i) f xs = Inr (map_from (Suc i) g xs)"
  proof (rule Cons.IH)
    fix n assume "n < length xs"
    with Cons.prems[of "Suc n"] show "f (xs ! n) (Suc i + n) = Inr (g (xs ! n) (Suc i + n))"
      by simp
  qed
  with hd show ?case by simp
qed

lemma reduce_rows_length:
  "length (reduce_from i (\<lambda>sum nw n. Array_map (g nw n) sum) x rest) = length x"
  by (induction rest arbitrary: i x) (simp_all add: Array_map_def map_from_length)

lemma map2_rows_shape:
  "map length ys = map length xs \<Longrightarrow> map length (map2 (map2 f) xs ys) = map length xs"
proof -
  assume eq: "map length ys = map length xs"
  then have "length xs = length ys"
    by (metis length_map)
  then show ?thesis using eq
    by (induction xs ys rule: list_induct2) simp_all
qed

lemma map2_matrices_shape:
  "map (map length) ys = map (map length) xs \<Longrightarrow>
     map (map length) (map2 (map2 (map2 f)) xs ys) = map (map length) xs"
proof -
  assume eq: "map (map length) ys = map (map length) xs"
  then have len: "length ys = length xs"
    by (metis length_map)
  show ?thesis
  proof (rule nth_equalityI)
    show "length (map (map length) (map2 (map2 (map2 f)) xs ys)) = length (map (map length) xs)"
      by (simp add: len)
    fix n assume "n < length (map (map length) (map2 (map2 (map2 f)) xs ys))"
    then have n: "n < length xs" by simp
    with arg_cong[OF eq, of "\<lambda>zs. zs ! n"] len have "map length (ys ! n) = map length (xs ! n)"
      by simp
    from map2_rows_shape[OF this, of f] n len
    show "map (map length) (map2 (map2 (map2 f)) xs ys) ! n = map (map length) xs ! n"
      by simp
  qed
qed

lemma map2_biases_shape:
  "length ys = length xs \<Longrightarrow> (\<And>k. k < length xs \<Longrightarrow> length (xs ! k) \<le> length (ys ! k)) \<Longrightarrow>
     map length (map2 (map2 f) xs ys) = map length xs"
  by (rule nth_equalityI) simp_all

subsection \<open>The constructor\<close>

lemma init_weights_Cons:
  "fst (init_weights rnd c prev ((layerSize, act) # rest)) =
     random_matrix rnd c layerSize prev # fst (init_weights rnd (c + layerSize * prev) layerSize rest)"
  by (simp add: split_beta)

lemma init_biases_Cons:
  "fst (init_biases rnd c ((layerSize, act) # rest)) =
     random_array rnd c layerSize # fst (init_biases rnd (c + layerSize) rest)"
  by (simp add: split_beta)

lemma init_weights_length: "length (fst (init_weights rnd c prev rest)) = length rest"
proof (induction rest arbitrary: c prev)
  case Nil
  then show ?case by simp
next
  case (Cons l rest)
  then show ?case by (cases l) (simp add: init_weights_Cons del: init_weights.simps)
qed

lemma init_biases_length: "length (fst (init_biases rnd c rest)) = length rest"
proof (induction rest arbitrary: c)
  case Nil
  then show ?case by simp
next
  case (Cons l rest)
  then show ?case by (cases l) (simp add: init_biases_Cons del: init_biases.simps)
qed

lemma random_array_length: "length (random_array rnd c n) = n"
  by (simp add: random_array_def)

lemma random_matrix_shape:
  "length (random_matrix rnd c rows cols) = rows"
  "row \<in> set (random_matrix rnd c rows cols) \<Longrightarrow> length row = cols"
  by (auto simp: random_matrix_def random_array_length)

lemma init_weights_shape:
  "k < length rest \<Longrightarrow>
     length (fst (init_weights rnd c prev rest) ! k) = fst (rest ! k) \<and>
     (\<forall>row \<in> set (fst (init_weights rnd c prev rest) ! k).
        length row = (if k = 0 then prev else fst (rest ! (k - 1))))"
proof (induction rest arbitrary: c prev k)
  case Nil
  then show ?case by simp
next
  case (Cons l rest)
  obtain layerSize act where l: "l = (layerSize, act)" by (cases l)
  show ?case
  proof (cases k)
    case 0
    then show ?thesis
      by (auto simp: l init_weights_Cons random_matrix_shape simp del: init_weights.simps)
  next
    case (Suc k')
    with Cons.prems have "k' < length rest" by simp
    from Cons.IH[OF this, of "c + layerSize * prev" layerSize] Suc
    show ?thesis
      by (cases k') (auto simp: l init_weights_Cons simp del: init_weights.simps)
  qed
qed

lemma init_biases_shape:
  "k < length rest \<Longrightarrow> length (fst (init_biases rnd c rest) ! k) = fst (rest ! k)"
proof (induction rest arbitrary: c k)
  case Nil
  then show ?case by simp
next
  case (Cons l rest)
  obtain layerSize act where l: "l = (layerSize, act)" by (cases l)
  show ?case
  proof (cases k)
    case 0
    then show ?thesis
      by (simp add: l init_biases_Cons random_array_length del: init_biases.simps)
  next
    case (Suc k')
    with Cons.prems have "k' < length rest" by simp
    from Cons.IH[OF this, of "c + layerSize"] Suc
    show ?thesis
      by (simp add: l init_biases_Cons del: init_biases.simps)
  qed
qed

lemma new_Network_fields:
  "new_Network rnd ((size0, act0) # rest) =
     \<lparr>weights = [] # fst (init_weights rnd 0 size0 rest),
      biases = [] # fst (init_biases rnd (snd (init_weights rnd 0 size0 rest)) rest),
      activations = act0 # map snd rest\<rparr>"
  by (simp add: new_Network_def split_beta)

lemma new_Network_layer:
  assumes "layers = (size0, act0) # rest" and "1 \<le> k" and "k < length layers"
  shows "length (weights (new_Network rnd layers) ! k) = fst (layers ! k) \<and>
         (\<forall>row \<in> set (weights (new_Network rnd layers) ! k). length row = fst (layers ! (k - 1))) \<and>
         length (biases (new_Network rnd layers) ! k) = fst (layers ! k)"
proof -
  from assms obtain k' where k': "k = Suc k'" "k' < length rest"
    by (cases k) auto
  from init_weights_shape[OF k'(2), of rnd 0 size0]
       init_biases_shape[OF k'(2), of rnd "snd (init_weights rnd 0 size0 rest)"]
  show ?thesis
    unfolding assms(1) new_Network_fields k'(1)
    by (cases k') auto
qed

text \<open>
  C9. For every topology with at least one layer, the network the constructor builds
  has one entry per layer in \<open>weights\<close>, \<open>biases\<close> and \<open>activations\<close>; \<open>weights[0]\<close> and
  \<open>biases[0]\<close> are empty; and for every \<open>k \<ge> 1\<close>, \<open>weights[k]\<close> has \<open>size(k)\<close> rows, each of
  length \<open>size(k - 1)\<close>, and \<open>biases[k]\<close> has length \<open>size(k)\<close>. This holds whatever the
  random draws are.
\<close>

theorem constructor_shape:
  assumes "layers \<noteq> []"
  shows "length (weights (new_Network rnd layers)) = length layers \<and>
         length (biases (new_Network rnd layers)) = length layers \<and>
         length (activations (new_Network rnd layers)) = length layers \<and>
         weights (new_Network rnd layers) ! 0 = [] \<and>
         biases (new_Network rnd layers) ! 0 = [] \<and>
         (\<forall>k. 1 \<le> k \<and> k < length layers \<longrightarrow>
            length (weights (new_Network rnd layers) ! k) = fst (layers ! k) \<and>
            (\<forall>row \<in> set (weights (new_Network rnd layers) ! k). length row = fst (layers ! (k - 1))) \<and>
            length (biases (new_Network rnd layers) ! k) = fst (layers ! k))"
proof -
  from assms obtain size0 act0 rest where layers: "layers = (size0, act0) # rest"
    by (cases layers) auto
  have "length (weights (new_Network rnd layers)) = length layers"
    and "length (biases (new_Network rnd layers)) = length layers"
    and "length (activations (new_Network rnd layers)) = length layers"
    and "weights (new_Network rnd layers) ! 0 = []"
    and "biases (new_Network rnd layers) ! 0 = []"
    by (simp_all add: layers new_Network_fields init_weights_length init_biases_length)
  with new_Network_layer[OF layers] show ?thesis
    by blast
qed

theorem constructor_shape_witness:
  "[(2, linear_act), (3, reLU), (1, sigmoid)] \<noteq> [] \<and>
   length (weights (new_Network fixed_draws [(2, linear_act), (3, reLU), (1, sigmoid)])) = 3 \<and>
   length (biases (new_Network fixed_draws [(2, linear_act), (3, reLU), (1, sigmoid)])) = 3 \<and>
   weights (new_Network fixed_draws [(2, linear_act), (3, reLU), (1, sigmoid)]) ! 0 = [] \<and>
   length (weights (new_Network fixed_draws [(2, linear_act), (3, reLU), (1, sigmoid)]) ! 2) = 1 \<and>
   length (biases (new_Network fixed_draws [(2, linear_act), (3, reLU), (1, sigmoid)]) ! 1) = 3"
proof -
  have ne: "[(2::nat, linear_act), (3, reLU), (1, sigmoid)] \<noteq> []"
    by simp
  from constructor_shape[OF ne, of fixed_draws] show ?thesis
    by simp
qed

text \<open>The constructor establishes the shape invariants.\<close>

lemma new_Network_inv:
  assumes "layers \<noteq> []"
  shows "network_inv (map fst layers) (new_Network rnd layers)"
proof -
  from assms obtain size0 act0 rest where layers: "layers = (size0, act0) # rest"
    by (cases layers) auto
  have "length (weights (new_Network rnd layers)) = length layers"
    and "length (biases (new_Network rnd layers)) = length layers"
    and "length (activations (new_Network rnd layers)) = length layers"
    and "weights (new_Network rnd layers) ! 0 = []"
    and "biases (new_Network rnd layers) ! 0 = []"
    by (simp_all add: layers new_Network_fields init_weights_length init_biases_length)
  moreover have "length (weights (new_Network rnd layers) ! k) = map fst layers ! k \<and>
      (\<forall>row \<in> set (weights (new_Network rnd layers) ! k). length row = map fst layers ! (k - 1)) \<and>
      length (biases (new_Network rnd layers) ! k) = map fst layers ! k"
    if "1 \<le> k \<and> k < length layers" for k
  proof -
    from that have "k < length layers" "k - 1 < length layers" by arith+
    with new_Network_layer[OF layers, of k rnd] that show ?thesis by simp
  qed
  ultimately show ?thesis
    using assms unfolding network_inv_def by simp
qed

text \<open>
  The invariants speak of the lengths only: a network with the same lengths at every
  level satisfies them too.
\<close>

lemma network_inv_shape_cong:
  assumes "network_inv sizes net"
    and w: "map (map length) (weights net') = map (map length) (weights net)"
    and b: "map length (biases net') = map length (biases net)"
    and a: "length (activations net') = length (activations net)"
  shows "network_inv sizes net'"
proof -
  from w have lw: "length (weights net') = length (weights net)"
    by (rule map_eq_imp_length_eq)
  from b have lb: "length (biases net') = length (biases net)"
    by (rule map_eq_imp_length_eq)
  have rows: "map length (weights net' ! k) = map length (weights net ! k)" if "k < length (weights net)" for k
    using arg_cong[OF w, of "\<lambda>xs. xs ! k"] that lw by simp
  have bl: "length (biases net' ! k) = length (biases net ! k)" if "k < length (biases net)" for k
    using arg_cong[OF b, of "\<lambda>xs. xs ! k"] that lb by simp
  have row_set: "(\<forall>row \<in> set (weights net' ! k). length row = c) = (\<forall>row \<in> set (weights net ! k). length row = c)"
    if "k < length (weights net)" for k c
  proof -
    have "(\<forall>row \<in> set (weights net' ! k). length row = c) = (\<forall>n \<in> set (map length (weights net' ! k)). n = c)"
      by auto
    also have "\<dots> = (\<forall>n \<in> set (map length (weights net ! k)). n = c)"
      by (simp only: rows[OF that])
    also have "\<dots> = (\<forall>row \<in> set (weights net ! k). length row = c)"
      by auto
    finally show ?thesis .
  qed
  have wl: "length (weights net' ! k) = length (weights net ! k)" if "k < length (weights net)" for k
    using rows[OF that] by (rule map_eq_imp_length_eq)
  from assms(1) have sz: "sizes \<noteq> []" "length (weights net) = length sizes" "length (biases net) = length sizes"
    by (simp_all add: network_inv_def)
  from sz wl[of 0] bl[of 0] assms(1) have zero: "weights net' ! 0 = []" "biases net' ! 0 = []"
    by (simp_all add: network_inv_def)
  from assms(1) sz zero show ?thesis
    unfolding network_inv_def
    by (simp add: lw lb a wl bl row_set)
qed

subsection \<open>The example networks\<close>

lemma scenario_net_eq:
  "scenario_net rnd =
     \<lparr>weights = [[], [[Val 1, Val 1]]], biases = [[], [Val 0]],
      activations = [linear_act, linear_act]\<rparr>"
  by (simp add: scenario_net_def new_Network_fields split_beta)

lemma no_input_net_eq:
  "no_input_net rnd =
     \<lparr>weights = [[], [[], []], [[Val 1, Val 1]]], biases = [[], [Val 1, Val 2], [Val 0]],
      activations = [linear_act, linear_act, linear_act]\<rparr>"
  by (simp add: no_input_net_def new_Network_fields split_beta random_matrix_def random_array_def
      eval_nat_numeral)

lemmas forward_defs = getOutput_def lookup_def num_at_def Array_mapE_def reduce_def layer_output_def
  linear_act_def

lemmas backward_defs = getGradient_def backward_init_def backward_step_def outputToZ_def
  Array_map_def reduce1_def

lemmas descend_defs = gradientDescend_def getMeanGradient_def reduce1E_def add_gradient_def
  subtract_weights_def subtract_biases_def

lemmas constructor_defs = new_Network_fields split_beta random_matrix_def random_array_def random_def
  eval_nat_numeral

lemma no_input_net_inv: "network_inv [0, 2, 1] (no_input_net rnd)"
proof -
  have "network_inv [0, 2, 1] (new_Network rnd [(0, linear_act), (2, linear_act), (1, linear_act)])"
    using new_Network_inv[of "[(0, linear_act), (2, linear_act), (1, linear_act)]" rnd] by simp
  then show ?thesis
  proof (rule network_inv_shape_cong)
    show "map (map length) (weights (no_input_net rnd)) =
          map (map length) (weights (new_Network rnd [(0, linear_act), (2, linear_act), (1, linear_act)]))"
      by (simp add: no_input_net_eq new_Network_fields split_beta random_matrix_def random_array_def
          eval_nat_numeral)
    show "map length (biases (no_input_net rnd)) =
          map length (biases (new_Network rnd [(0, linear_act), (2, linear_act), (1, linear_act)]))"
      by (simp add: no_input_net_eq new_Network_fields split_beta random_matrix_def random_array_def
          eval_nat_numeral)
    show "length (activations (no_input_net rnd)) =
          length (activations (new_Network rnd [(0, linear_act), (2, linear_act), (1, linear_act)]))"
      by (simp add: no_input_net_eq new_Network_fields)
  qed
qed

subsection \<open>The check of the input length\<close>

text \<open>
  \<open>getOutput\<close> compares the length of the input with the length of \<^verbatim>\<open>this.biases[0]\<close>,
  and nothing else in it throws a dimension mismatch.
\<close>

lemma mapE_from_Inl:
  "mapE_from i f xs = Inl e \<Longrightarrow> \<exists>x n. f x n = Inl e"
  by (induction xs arbitrary: i) (auto split: sum.splits)

lemma layer_output_Inl: "layer_output net a k = Inl e \<Longrightarrow> e = TypeError"
  unfolding layer_output_def Array_mapE_def
  by (drule mapE_from_Inl) (auto simp: lookup_def Let_def split: if_splits)

lemma getOutput_loop_Inl: "getOutput_loop net a k = Inl e \<Longrightarrow> e = TypeError"
proof (induction net a k rule: getOutput_loop.induct)
  case (1 net a k)
  show ?case
  proof (cases "layer_output net a k")
    case (Inl e')
    with "1.prems" layer_output_Inl[OF Inl] show ?thesis
      by (simp split: if_splits)
  next
    case (Inr v)
    with "1.prems" "1.IH" show ?thesis
      by (simp split: if_splits)
  qed
qed

lemma getOutput_DimensionMismatch_iff:
  "getOutput net input = Inl DimensionMismatch \<longleftrightarrow>
     biases net \<noteq> [] \<and> length (biases net ! 0) \<noteq> length input"
proof
  assume mismatch: "getOutput net input = Inl DimensionMismatch"
  show "biases net \<noteq> [] \<and> length (biases net ! 0) \<noteq> length input"
  proof (rule ccontr)
    assume "\<not> (biases net \<noteq> [] \<and> length (biases net ! 0) \<noteq> length input)"
    then consider "biases net = []" | "biases net \<noteq> []" "length (biases net ! 0) = length input"
      by blast
    then show False
    proof cases
      case 1
      with mismatch show False
        by (simp add: getOutput_def lookup_def)
    next
      case 2
      with mismatch
      have "getOutput_loop net ((map (map (\<lambda>_. Val 0)) (biases net))[0 := input]) 1 = Inl DimensionMismatch"
        by (simp add: getOutput_def lookup_def del: getOutput_loop.simps)
      from getOutput_loop_Inl[OF this] show False
        by simp
    qed
  qed
next
  assume "biases net \<noteq> [] \<and> length (biases net ! 0) \<noteq> length input"
  then show "getOutput net input = Inl DimensionMismatch"
    by (simp add: getOutput_def lookup_def)
qed

text \<open>
  The constructor leaves \<^verbatim>\<open>biases[0]\<close> empty, so a network it built rejects every input
  that is not empty, in \<open>getOutput\<close>, \<open>getCost\<close> and \<open>getGradient\<close> alike, and
  \<open>getOutput\<close> rejects no other.
\<close>

lemma new_Network_rejects_input:
  assumes "layers \<noteq> []" and "input \<noteq> []"
  shows "getOutput (new_Network rnd layers) input = Inl DimensionMismatch"
    and "getCost (new_Network rnd layers) input target = Inl DimensionMismatch"
    and "getGradient (new_Network rnd layers) input target = Inl DimensionMismatch"
proof -
  from assms(1) obtain size0 act0 rest where layers: "layers = (size0, act0) # rest"
    by (cases layers) auto
  from assms(2) show "getOutput (new_Network rnd layers) input = Inl DimensionMismatch"
    and "getCost (new_Network rnd layers) input target = Inl DimensionMismatch"
    and "getGradient (new_Network rnd layers) input target = Inl DimensionMismatch"
    by (simp_all add: layers new_Network_fields getOutput_def getCost_def getGradient_def lookup_def)
qed

lemma new_Network_getOutput_mismatch_iff:
  assumes "layers \<noteq> []"
  shows "getOutput (new_Network rnd layers) input = Inl DimensionMismatch \<longleftrightarrow> input \<noteq> []"
proof -
  from assms obtain size0 act0 rest where layers: "layers = (size0, act0) # rest"
    by (cases layers) auto
  show ?thesis
    unfolding getOutput_DimensionMismatch_iff
    by (auto simp: layers new_Network_fields)
qed

text \<open>
  C1. The claim: \<open>getOutput\<close> fails with a dimension mismatch exactly when the length
  of the input differs from \<open>size(0)\<close>, and succeeds on every input of length \<open>size(0)\<close>.
  The code compares with the length of \<^verbatim>\<open>this.biases[0]\<close>, which is 0 on every network
  the constructor builds. On the network with layers \<^verbatim>\<open>[2, linear], [1, linear]\<close>,
  whatever the random draws, the input \<open>[1, 2]\<close> of length \<open>size(0) = 2\<close> is rejected
  with a dimension mismatch, and the empty input, whose length differs from \<open>size(0)\<close>,
  is accepted: its output layer is \<open>[NaN]\<close>.
\<close>

theorem getOutput_input_check:
  "getOutput (new_Network rnd [(2, linear_act), (1, linear_act)]) [Val 1, Val 2] = Inl DimensionMismatch \<and>
   getOutput (new_Network rnd [(2, linear_act), (1, linear_act)]) [] = Inr [[], [NaN]]"
  by (simp add: constructor_defs forward_defs)

text \<open>
  C3. The claim: on the network with layers \<^verbatim>\<open>[2, linear], [1, linear]\<close>,
  \<^verbatim>\<open>weights[1] = [[1, 1]]\<close> and \<^verbatim>\<open>biases[1] = [0]\<close>, \<open>getOutput([1, 2])\<close> ends with \<open>[3]\<close>,
  \<open>getCost([1, 2], [5])\<close> is 4 and \<open>getGradient([1, 2], [5])\<close> has \<open>nabla_b[1] = [-4]\<close>
  and \<open>nabla_w[1] = [[-4, -8]]\<close>. In the code each of the three calls throws the
  dimension mismatch of the input check, since \<^verbatim>\<open>biases[0]\<close> is empty.
\<close>

theorem scenario_throws:
  "getOutput (scenario_net rnd) [Val 1, Val 2] = Inl DimensionMismatch \<and>
   getCost (scenario_net rnd) [Val 1, Val 2] [Val 5] = Inl DimensionMismatch \<and>
   getGradient (scenario_net rnd) [Val 1, Val 2] [Val 5] = Inl DimensionMismatch"
  by (simp add: scenario_net_eq getOutput_def getCost_def getGradient_def lookup_def)

subsection \<open>The cost\<close>

text \<open>
  C2. The claim: for input and target of valid lengths, \<open>getCost\<close> is the sum over the
  output layer of \<open>(output[i] - target[i])\<^sup>2\<close>. In the code, an input of length
  \<open>size(0) = 2\<close> is rejected by the input check; and where the check passes, the
  reduction of line 85 has no initial value, so it starts from \<open>output[0]\<close> itself
  instead of \<open>(output[0] - target[0])\<^sup>2\<close>: with the output layer \<open>[3]\<close> and the target
  \<open>[5]\<close> the cost returned is 3, not \<open>(3 - 5)\<^sup>2 = 4\<close>.
\<close>

theorem getCost_seedless_reduce:
  "getCost (new_Network rnd [(2, linear_act), (1, linear_act)]) [Val 1, Val 2] [Val 5] = Inl DimensionMismatch \<and>
   getOutput (no_input_net rnd) [] = Inr [[], [Val 1, Val 2], [Val 3]] \<and>
   getCost (no_input_net rnd) [] [Val 5] = Inr (Val 3)"
  by (simp add: constructor_defs no_input_net_eq forward_defs getCost_def reduce1_def)

subsection \<open>Shapes in the forward and the backward pass\<close>

text \<open>The result of \<open>getOutput\<close> has the lengths of \<open>biases\<close>, layer by layer.\<close>

lemma layer_output_length: "layer_output net a k = Inr v \<Longrightarrow> length v = length (biases net ! k)"
  by (simp add: layer_output_def Array_mapE_def mapE_from_length)

lemma getOutput_loop_shape:
  "getOutput_loop net a k = Inr a' \<Longrightarrow> map length a = map length (biases net) \<Longrightarrow>
     map length a' = map length (biases net)"
proof (induction net a k rule: getOutput_loop.induct)
  case (1 net a k)
  show ?case
  proof (cases "k < length (biases net)")
    case True
    with "1.prems"(1) obtain v where v: "layer_output net a k = Inr v"
      and rest: "getOutput_loop net (a[k := v]) (k + 1) = Inr a'"
      by (auto split: sum.splits)
    from "1.prems"(2) True layer_output_length[OF v]
    have "map length (a[k := v]) = map length (biases net)"
      by (rule map_length_update_same)
    with "1.IH"[OF True v rest] show ?thesis .
  next
    case False
    with "1.prems" show ?thesis by simp
  qed
qed

lemma getOutput_shape:
  assumes "getOutput net input = Inr a"
  shows "map length a = map length (biases net)"
proof -
  from assms have ne: "0 < length (biases net)" and len: "length (biases net ! 0) = length input"
    and loop: "getOutput_loop net ((map (map (\<lambda>_. Val 0)) (biases net))[0 := input]) 1 = Inr a"
    by (auto simp: getOutput_def and_then_Inr_iff lookup_Inr_iff split: if_splits)
  have "map length (map (map (\<lambda>_. Val 0)) (biases net)) = map length (biases net)"
    by simp
  from map_length_update_same[OF this ne] len
  have "map length ((map (map (\<lambda>_. Val 0)) (biases net))[0 := input]) = map length (biases net)"
    by simp
  with loop show ?thesis by (rule getOutput_loop_shape)
qed

lemma backward_step_Inr:
  assumes "backward_step net a k st = Inr st'"
  obtains nbk nwk d where
    "length nbk = length (dCda st ! k)"
    "k < length (weights net)"
    "map length nwk = map length (weights net ! k)"
    "nabla_b st' = (nabla_b st)[k := nbk]"
    "nabla_w st' = (nabla_w st)[k := nwk]"
    "dCda st' = (if k > 0 then (dCda st)[k - 1 := d] else dCda st)"
    "k > 0 \<Longrightarrow> nwk \<noteq> [] \<and> length d = length (hd nwk)"
proof -
  from assms obtain nbk nwk where
    nbk: "mapE_from 0 (\<lambda>dC j.
          and_then (lookup (activations net) k) (\<lambda>act.
          and_then (outputToZ a (weights net) (biases net) k j) (\<lambda>z.
            Inr (num_mul dC (dActivation act z))))) (dCda st ! k) = Inr nbk"
    and k: "k < length (weights net)"
    and nwk: "mapE_from 0 (\<lambda>row i.
          mapE_from 0 (\<lambda>_ j.
            and_then (if k = 0 then Inl TypeError else Inr (a ! (k - 1))) (\<lambda>prev.
              Inr (num_mul (num_at nbk i) (num_at prev j))))
          row) (weights net ! k) = Inr nwk"
    and fin: "(if k > 0 then
       and_then
         (reduce1 (\<lambda>sum nw _. Array_map (\<lambda>s i. num_add s (num_mul (num_at nw i) (num_at nbk i))) sum)
            nwk) (\<lambda>d.
         Inr (st\<lparr>nabla_w := (nabla_w st)[k := nwk],
                 nabla_b := (nabla_b st)[k := nbk],
                 dCda := (dCda st)[k - 1 := d]\<rparr>))
     else
       Inr (st\<lparr>nabla_w := (nabla_w st)[k := nwk],
               nabla_b := (nabla_b st)[k := nbk]\<rparr>)) = Inr st'"
    unfolding backward_step_def Array_mapE_def
    by (auto simp: and_then_Inr_iff lookup_Inr_iff)
  have l1: "length nbk = length (dCda st ! k)"
    using nbk by (rule mapE_from_length)
  have l2: "map length nwk = map length (weights net ! k)"
    using nwk by (rule mapE_rows_length)
  show thesis
  proof (cases "k > 0")
    case True
    with fin obtain d where
      d: "reduce1 (\<lambda>sum nw _. Array_map (\<lambda>s i. num_add s (num_mul (num_at nw i) (num_at nbk i))) sum) nwk = Inr d"
      and st': "st' = st\<lparr>nabla_w := (nabla_w st)[k := nwk], nabla_b := (nabla_b st)[k := nbk],
                 dCda := (dCda st)[k - 1 := d]\<rparr>"
      by (auto simp: and_then_Inr_iff)
    from d have "nwk \<noteq> [] \<and> length d = length (hd nwk)"
      by (cases nwk) (auto simp: reduce1_def reduce_rows_length)
    with that[OF l1 k l2, of d] st' True show ?thesis by simp
  next
    case False
    with fin have "st' = st\<lparr>nabla_w := (nabla_w st)[k := nwk], nabla_b := (nabla_b st)[k := nbk]\<rparr>"
      by simp
    with that[OF l1 k l2, of "[]"] False show ?thesis by simp
  qed
qed

text \<open>What every pass of the backward loop keeps, on any network.\<close>

lemma backward_step_shape:
  assumes "backward_step net a k st = Inr st'"
    and "map (map length) (nabla_w st) = map (map length) (weights net)"
    and "length (nabla_b st) = length (biases net)"
    and "length (dCda st) = length (biases net)"
  shows "map (map length) (nabla_w st') = map (map length) (weights net) \<and>
         length (nabla_b st') = length (biases net) \<and>
         length (dCda st') = length (biases net)"
  using assms(1)
proof (rule backward_step_Inr)
  fix nbk nwk d
  assume "k < length (weights net)" "map length nwk = map length (weights net ! k)"
    "nabla_b st' = (nabla_b st)[k := nbk]" "nabla_w st' = (nabla_w st)[k := nwk]"
    "dCda st' = (if k > 0 then (dCda st)[k - 1 := d] else dCda st)"
  with assms(2-4) map_rows_update_same[OF assms(2), of k nwk] show ?thesis
    by simp
qed

lemma backward_loop_shape:
  "backward_loop net a n st = Inr st' \<Longrightarrow>
   map (map length) (nabla_w st) = map (map length) (weights net) \<Longrightarrow>
   length (nabla_b st) = length (biases net) \<Longrightarrow>
   length (dCda st) = length (biases net) \<Longrightarrow>
   map (map length) (nabla_w st') = map (map length) (weights net) \<and>
   length (nabla_b st') = length (biases net)"
proof (induction n arbitrary: st)
  case 0
  then show ?case by simp
next
  case (Suc n)
  from Suc.prems(1) obtain st1 where st1: "backward_step net a n st = Inr st1"
    and rest: "backward_loop net a n st1 = Inr st'"
    by (auto split: sum.splits)
  from backward_step_shape[OF st1 Suc.prems(2-4)] Suc.IH[OF rest] show ?case
    by simp
qed

lemma backward_init_shape:
  "map (map length) (nabla_w (backward_init net a target)) = map (map length) (weights net)"
  "length (nabla_b (backward_init net a target)) = length (biases net)"
  "length (dCda (backward_init net a target)) = length (biases net)"
  by (simp_all add: backward_init_def Let_def comp_def)

lemma getGradient_Inr:
  assumes "getGradient net input target = Inr g"
  obtains a st where "getOutput net input = Inr a"
    "backward_loop net a (length (biases net)) (backward_init net a target) = Inr st"
    "nabla_w g = nabla_w st" "nabla_b g = nabla_b st"
  using assms
  by (auto simp: getGradient_def Let_def and_then_Inr_iff split: if_splits)

lemma getGradient_shape:
  assumes "getGradient net input target = Inr g"
  shows "map (map length) (nabla_w g) = map (map length) (weights net) \<and>
         length (nabla_b g) = length (biases net)"
  using assms
proof (rule getGradient_Inr)
  fix a st
  assume loop: "backward_loop net a (length (biases net)) (backward_init net a target) = Inr st"
    and "nabla_w g = nabla_w st" "nabla_b g = nabla_b st"
  with backward_loop_shape[OF loop backward_init_shape]
  show ?thesis by simp
qed

lemma backward_step_lengths:
  assumes inv: "network_inv sizes net"
    and step: "backward_step net a k st = Inr st'"
    and k: "k < length (biases net)"
    and len: "length (nabla_b st) = length (biases net)" "length (dCda st) = length (biases net)"
    and J: "\<forall>j. 1 \<le> j \<and> j < length (biases net) \<longrightarrow>
              length (dCda st ! j) = length (biases net ! j) \<and>
              length (nabla_b st ! j) = length (biases net ! j)"
  shows "\<forall>j. 1 \<le> j \<and> j < length (biases net) \<longrightarrow>
              length (dCda st' ! j) = length (biases net ! j) \<and>
              length (nabla_b st' ! j) = length (biases net ! j)"
  using step
proof (rule backward_step_Inr)
  fix nbk nwk d
  assume nbk: "length nbk = length (dCda st ! k)"
    and nwk: "map length nwk = map length (weights net ! k)"
    and nb': "nabla_b st' = (nabla_b st)[k := nbk]"
    and d': "dCda st' = (if k > 0 then (dCda st)[k - 1 := d] else dCda st)"
    and d: "k > 0 \<Longrightarrow> nwk \<noteq> [] \<and> length d = length (hd nwk)"
  show ?thesis
  proof (intro allI impI)
    fix j assume j: "1 \<le> j \<and> j < length (biases net)"
    have "length (nabla_b st' ! j) = length (biases net ! j)"
    proof (cases "j = k")
      case True
      with nb' len k nbk J j show ?thesis by simp
    next
      case False
      with nb' J j show ?thesis by simp
    qed
    moreover have "length (dCda st' ! j) = length (biases net ! j)"
    proof (cases "k > 0 \<and> j = k - 1")
      case True
      then have k1: "1 \<le> k" and jk: "j = k - 1" by simp_all
      from d True have ne: "nwk \<noteq> []" and dl: "length d = length (hd nwk)" by simp_all
      from ne nwk have wne: "weights net ! k \<noteq> []" by auto
      from arg_cong[OF nwk, of hd] ne wne have "length (hd nwk) = length (hd (weights net ! k))"
        by (simp add: hd_map)
      moreover from inv k1 k wne have "length (hd (weights net ! k)) = sizes ! (k - 1)"
        by (simp add: network_inv_def)
      moreover from inv j jk k have "length (biases net ! j) = sizes ! j"
        by (simp add: network_inv_def)
      ultimately show ?thesis
        using d' True dl len j by simp
    next
      case False
      with d' J j show ?thesis by auto
    qed
    ultimately show "length (dCda st' ! j) = length (biases net ! j) \<and>
                     length (nabla_b st' ! j) = length (biases net ! j)"
      by simp
  qed
qed


lemma backward_loop_lengths:
  "network_inv sizes net \<Longrightarrow> backward_loop net a n st = Inr st' \<Longrightarrow> n \<le> length (biases net) \<Longrightarrow>
   map (map length) (nabla_w st) = map (map length) (weights net) \<Longrightarrow>
   length (nabla_b st) = length (biases net) \<Longrightarrow>
   length (dCda st) = length (biases net) \<Longrightarrow>
   \<forall>j. 1 \<le> j \<and> j < length (biases net) \<longrightarrow>
       length (dCda st ! j) = length (biases net ! j) \<and>
       length (nabla_b st ! j) = length (biases net ! j) \<Longrightarrow>
   \<forall>j. 1 \<le> j \<and> j < length (biases net) \<longrightarrow> length (nabla_b st' ! j) = length (biases net ! j)"
proof (induction n arbitrary: st)
  case 0
  then show ?case by simp
next
  case (Suc n)
  from Suc.prems(2) obtain st1 where st1: "backward_step net a n st = Inr st1"
    and rest: "backward_loop net a n st1 = Inr st'"
    by (auto split: sum.splits)
  from Suc.prems(3) have n: "n < length (biases net)" "n \<le> length (biases net)"
    by simp_all
  from backward_step_shape[OF st1 Suc.prems(4-6)]
  have shape: "map (map length) (nabla_w st1) = map (map length) (weights net)"
    "length (nabla_b st1) = length (biases net)" "length (dCda st1) = length (biases net)"
    by simp_all
  from backward_step_lengths[OF Suc.prems(1) st1 n(1) Suc.prems(5,6,7)]
  show ?case
    by (rule Suc.IH[OF Suc.prems(1) rest n(2) shape])
qed

lemma backward_init_lengths:
  assumes "map length a = map length (biases net)"
  shows "\<forall>j. 1 \<le> j \<and> j < length (biases net) \<longrightarrow>
       length (dCda (backward_init net a target) ! j) = length (biases net ! j) \<and>
       length (nabla_b (backward_init net a target) ! j) = length (biases net ! j)"
proof (intro allI impI)
  fix j assume j: "1 \<le> j \<and> j < length (biases net)"
  let ?last = "length (biases net) - 1"
  from assms have la: "length a = length (biases net)"
    by (rule map_eq_imp_length_eq)
  from j have bound: "?last < length (biases net)"
    by arith
  with la arg_cong[OF assms, of "\<lambda>xs. xs ! ?last"]
  have last: "length (a ! ?last) = length (biases net ! ?last)"
    by simp
  have "length (dCda (backward_init net a target) ! j) = length (biases net ! j)"
  proof (cases "j = ?last")
    case True
    with bound last show ?thesis
      by (simp add: backward_init_def Let_def Array_map_def map_from_length)
  next
    case False
    with j show ?thesis
      by (simp add: backward_init_def Let_def)
  qed
  moreover from j have "length (nabla_b (backward_init net a target) ! j) = length (biases net ! j)"
    by (simp add: backward_init_def Let_def)
  ultimately show "length (dCda (backward_init net a target) ! j) = length (biases net ! j) \<and>
       length (nabla_b (backward_init net a target) ! j) = length (biases net ! j)"
    by simp
qed

text \<open>
  On a network that satisfies the shape invariants, a gradient has as many bias
  entries as the network at every layer from 1 on.
\<close>

lemma getGradient_bias_lengths:
  assumes "network_inv sizes net" and "getGradient net input target = Inr g"
    and "1 \<le> j" and "j < length (biases net)"
  shows "length (nabla_b g ! j) = length (biases net ! j)"
  using assms(2)
proof (rule getGradient_Inr)
  fix a st
  assume a: "getOutput net input = Inr a"
    and loop: "backward_loop net a (length (biases net)) (backward_init net a target) = Inr st"
    and "nabla_b g = nabla_b st"
  with backward_loop_lengths[OF assms(1) loop order_refl backward_init_shape
      backward_init_lengths[OF getOutput_shape[OF a]]] assms(3,4)
  show ?thesis by simp
qed

text \<open>
  C4. The claim: in the backward pass, for \<open>k > 0\<close>, the error propagated to layer
  \<open>k - 1\<close> is \<open>dC/da[k-1][j] = \<Sum>\<^sub>i delta[k][i] * weights[k][i][j]\<close>, with \<open>delta[k] = nabla_b[k]\<close>.
  Line 102 of the code reduces the rows of \<open>nabla_w[k]\<close>, not of \<open>weights[k]\<close>, without
  an initial value, and multiplies by \<open>nabla_b[k][i]\<close> with \<open>i\<close> the column. On the
  network \<open>no_input_net\<close>, with target \<open>[5]\<close>: the forward pass gives \<open>[[], [1, 2], [3]]\<close>;
  the pass of the loop at \<open>k = 2\<close> sets \<open>nabla_b[2] = [-4]\<close> and \<open>dCda[1] = [-4, -8]\<close>,
  the row \<open>nabla_w[2][0]\<close>; the sum of the claim, with \<open>weights[2] = [[1, 1]]\<close>, is
  \<open>[-4, -4]\<close>. The difference shows in the result: \<open>nabla_b[1] = [-4, -8]\<close>.
\<close>

theorem backward_pass_propagated_error:
  "getOutput (no_input_net rnd) [] = Inr [[], [Val 1, Val 2], [Val 3]] \<and>
   backward_step (no_input_net rnd) [[], [Val 1, Val 2], [Val 3]] 2
       (backward_init (no_input_net rnd) [[], [Val 1, Val 2], [Val 3]] [Val 5]) =
     Inr \<lparr>nabla_w = [[], [[], []], [[Val (- 4), Val (- 8)]]],
          nabla_b = [[], [Val 0, Val 0], [Val (- 4)]],
          dCda = [[], [Val (- 4), Val (- 8)], [Val (- 4)]]\<rparr> \<and>
   map (spec_propagated_error [Val (- 4)] (weights (no_input_net rnd) ! 2)) [0, 1] = [Val (- 4), Val (- 4)] \<and>
   getGradient (no_input_net rnd) [] [Val 5] =
     Inr \<lparr>nabla_w = [[], [[], []], [[Val (- 4), Val (- 8)]]],
          nabla_b = [[], [Val (- 4), Val (- 8)], [Val (- 4)]]\<rparr>"
  by (simp add: no_input_net_eq forward_defs backward_defs spec_propagated_error_def)

text \<open>
  C5. The claim: for every valid input and target, the gradient \<open>getGradient\<close> returns
  has \<open>nabla_w\<close> of the shape of \<open>weights\<close> and \<open>nabla_b\<close> of the shape of \<open>biases\<close>, with
  \<open>nabla_w[0]\<close> and \<open>nabla_b[0]\<close> empty. On the network with layers
  \<^verbatim>\<open>[2, linear], [1, linear]\<close>, whatever the random draws, the valid pair \<open>[1, 2]\<close>, \<open>[5]\<close>
  gets no gradient but the dimension mismatch of the input check; and on the one input
  the check accepts, the empty one, \<open>nabla_b[0]\<close> has two entries while \<open>biases[0]\<close> has
  none (the loop runs down to \<open>k = 0\<close> and overwrites \<open>nabla_b[0]\<close> with one entry per
  column of \<open>weights[1]\<close>).
\<close>

theorem getGradient_on_two_inputs:
  "getGradient (new_Network rnd [(2, linear_act), (1, linear_act)]) [Val 1, Val 2] [Val 5] = Inl DimensionMismatch \<and>
   biases (new_Network rnd [(2, linear_act), (1, linear_act)]) ! 0 = [] \<and>
   getGradient (new_Network rnd [(2, linear_act), (1, linear_act)]) [] [Val 5] =
     Inr \<lparr>nabla_w = [[], [[NaN, NaN]]], nabla_b = [[NaN, NaN], [NaN]]\<rparr>"
  by (simp add: constructor_defs forward_defs backward_defs)

subsection \<open>The mean gradient of a batch\<close>

lemma add_gradient_shape:
  assumes "add_gradient acc g = Inr s"
  shows "map (map length) (nabla_w s) = map (map length) (nabla_w acc) \<and>
         map length (nabla_b s) = map length (nabla_b acc)"
proof -
  from assms obtain w b where
    w: "mapE_from 0 (\<lambda>s k. mapE_from 0 (\<lambda>s1 i. mapE_from 0 (\<lambda>s2 j.
          and_then (lookup (nabla_w g) k) (\<lambda>gk.
          and_then (lookup gk i) (\<lambda>gki.
            Inr (num_add s2 (num_at gki j))))) s1) s) (nabla_w acc) = Inr w"
    and b: "mapE_from 0 (\<lambda>s k. mapE_from 0 (\<lambda>s1 i.
          and_then (lookup (nabla_b g) k) (\<lambda>gk.
            Inr (num_add s1 (num_at gk i)))) s) (nabla_b acc) = Inr b"
    and s: "s = \<lparr>nabla_w = w, nabla_b = b\<rparr>"
    unfolding add_gradient_def Array_mapE_def
    by (auto simp: and_then_Inr_iff)
  from mapE_matrices_shape[OF w] mapE_rows_length[OF b] show ?thesis
    by (simp add: s)
qed

lemma reduce_gradients_shape:
  "reduceE_from i (\<lambda>sum g _. add_gradient sum g) acc gs = Inr tot \<Longrightarrow>
     map (map length) (nabla_w tot) = map (map length) (nabla_w acc) \<and>
     map length (nabla_b tot) = map length (nabla_b acc)"
proof (induction gs arbitrary: i acc)
  case Nil
  then show ?case by simp
next
  case (Cons g gs)
  from Cons.prems obtain acc' where acc': "add_gradient acc g = Inr acc'"
    and rest: "reduceE_from (Suc i) (\<lambda>sum g _. add_gradient sum g) acc' gs = Inr tot"
    by (auto split: sum.splits)
  from Cons.IH[OF rest] add_gradient_shape[OF acc'] show ?case by simp
qed

text \<open>
  A mean gradient has the shape of the gradient of the first example of the batch.
\<close>

lemma getMeanGradient_Inr:
  assumes "getMeanGradient net input target = Inr g"
  obtains x xs g0 where "input = x # xs" "getGradient net x (target ! 0) = Inr g0"
    "map (map length) (nabla_w g) = map (map length) (nabla_w g0)"
    "map length (nabla_b g) = map length (nabla_b g0)"
proof -
  from assms obtain gradients tot where
    gs: "mapE_from 0 (\<lambda>i n. getGradient net i (target ! n)) input = Inr gradients"
    and tot: "reduce1E (\<lambda>sum g _. add_gradient sum g) gradients = Inr tot"
    and g: "g = \<lparr>nabla_w = map (map (map (\<lambda>j. num_div j (Val (real (length input)))))) (nabla_w tot),
                 nabla_b = map (map (\<lambda>i. num_div i (Val (real (length input))))) (nabla_b tot)\<rparr>"
    unfolding getMeanGradient_def Array_mapE_def Let_def
    by (auto simp: and_then_Inr_iff split: if_splits)
  from tot obtain g0 rest where gradients: "gradients = g0 # rest"
    and red: "reduceE_from 1 (\<lambda>sum g _. add_gradient sum g) g0 rest = Inr tot"
    by (cases gradients) (auto simp: reduce1E_def)
  from gs gradients obtain x xs where input: "input = x # xs"
    and g0: "getGradient net x (target ! 0) = Inr g0"
    by (cases input) (auto split: sum.splits)
  from reduce_gradients_shape[OF red]
  have "map (map length) (nabla_w g) = map (map length) (nabla_w g0)"
    and "map length (nabla_b g) = map length (nabla_b g0)"
    by (simp_all add: g comp_def)
  with input g0 show thesis by (rule that)
qed

lemma getMeanGradient_shape:
  assumes "getMeanGradient net input target = Inr g"
  shows "map (map length) (nabla_w g) = map (map length) (weights net) \<and>
         length (nabla_b g) = length (biases net)"
  using assms
proof (rule getMeanGradient_Inr)
  fix x xs g0
  assume g0: "getGradient net x (target ! 0) = Inr g0"
    and "map (map length) (nabla_w g) = map (map length) (nabla_w g0)"
    and b: "map length (nabla_b g) = map length (nabla_b g0)"
  with getGradient_shape[OF g0] map_eq_imp_length_eq[OF b] show ?thesis
    by simp
qed

lemma getMeanGradient_bias_lengths:
  assumes "network_inv sizes net" and "getMeanGradient net input target = Inr g"
    and "k < length (biases net)"
  shows "length (biases net ! k) \<le> length (nabla_b g ! k)"
  using assms(2)
proof (rule getMeanGradient_Inr)
  fix x xs g0
  assume g0: "getGradient net x (target ! 0) = Inr g0"
    and b: "map length (nabla_b g) = map length (nabla_b g0)"
  from getGradient_shape[OF g0] have len: "length (nabla_b g0) = length (biases net)"
    by simp
  with map_eq_imp_length_eq[OF b] have len': "length (nabla_b g) = length (biases net)"
    by simp
  show ?thesis
  proof (cases "k = 0")
    case True
    with assms(1) show ?thesis by (simp add: network_inv_def)
  next
    case False
    with getGradient_bias_lengths[OF assms(1) g0, of k] assms(3)
    have "length (nabla_b g0 ! k) = length (biases net ! k)" by simp
    with arg_cong[OF b, of "\<lambda>xs. xs ! k"] assms(3) len len' show ?thesis by simp
  qed
qed

text \<open>
  C10. On every network, \<open>getMeanGradient\<close> called with two empty lists returns no
  gradient: the two lengths agree, so the length check passes, and the reduction of
  the empty list of gradients, which has no initial value, throws.
\<close>

theorem getMeanGradient_empty_batch: "getMeanGradient net [] [] = Inl TypeError"
  by (simp add: getMeanGradient_def Array_mapE_def reduce1E_def)

text \<open>
  A batch of one example has the outcome of the gradient of that example: the same
  gradient, entry for entry, when there is one (the reduction of a one-element list
  is that element, and each entry is divided by 1), and the same error otherwise.
\<close>

lemma getMeanGradient_single_outcome: "getMeanGradient net [x] [y] = getGradient net x y"
proof (cases "getGradient net x y")
  case (Inl e)
  then show ?thesis
    by (simp add: getMeanGradient_def Array_mapE_def)
next
  case (Inr g)
  have "map (map (map (\<lambda>j. num_div j (Val (real (Suc 0)))))) (nabla_w g) = nabla_w g"
    by (simp add: num_div_one)
  moreover have "map (map (\<lambda>i. num_div i (Val (real (Suc 0))))) (nabla_b g) = nabla_b g"
    by (simp add: num_div_one)
  ultimately show ?thesis
    using Inr by (simp add: getMeanGradient_def Array_mapE_def reduce1E_def)
qed

text \<open>
  On a network that satisfies the shape invariants \<^verbatim>\<open>biases[0]\<close> is empty, so every
  input that is not empty is rejected, and with it every batch whose first example
  is not empty.
\<close>

lemma network_inv_rejects_input:
  assumes "network_inv sizes net" and "input \<noteq> []"
  shows "getOutput net input = Inl DimensionMismatch"
    and "getCost net input target = Inl DimensionMismatch"
    and "getGradient net input target = Inl DimensionMismatch"
proof -
  from assms(1) have "0 < length (biases net)" "biases net ! 0 = []"
    by (simp_all add: network_inv_def)
  with assms(2) show "getOutput net input = Inl DimensionMismatch"
    and "getCost net input target = Inl DimensionMismatch"
    and "getGradient net input target = Inl DimensionMismatch"
    by (simp_all add: getOutput_def getCost_def getGradient_def lookup_def)
qed

lemma getMeanGradient_rejects_first_example:
  assumes "network_inv sizes net" and "x \<noteq> []" and "length xs = length ys"
  shows "getMeanGradient net (x # xs) (y # ys) = Inl DimensionMismatch"
  using network_inv_rejects_input(3)[OF assms(1,2), of y] assms(3)
  by (simp add: getMeanGradient_def Array_mapE_def)

text \<open>
  C7. The claim: for every single example \<open>(x, y)\<close> of valid lengths,
  \<open>getMeanGradient([x], [y])\<close> returns a gradient whose entries are those of
  \<open>getGradient(x, y)\<close>. On the network with layers \<^verbatim>\<open>[2, linear], [1, linear]\<close>,
  whatever the random draws, the example \<open>[1, 2]\<close>, \<open>[5]\<close> has valid lengths and
  \<open>getMeanGradient([[1, 2]], [[5]])\<close> returns no gradient: it throws the dimension
  mismatch of the input check, as \<open>getGradient([1, 2], [5])\<close> does.
\<close>

theorem getMeanGradient_single_throws:
  "getMeanGradient (new_Network rnd [(2, linear_act), (1, linear_act)]) [[Val 1, Val 2]] [[Val 5]] =
     Inl DimensionMismatch \<and>
   getGradient (new_Network rnd [(2, linear_act), (1, linear_act)]) [Val 1, Val 2] [Val 5] =
     Inl DimensionMismatch"
  by (simp add: new_Network_fields getMeanGradient_def Array_mapE_def getGradient_def lookup_def)


subsection \<open>Gradient descent\<close>

lemma subtract_weights_eq:
  assumes "map (map length) nw = map (map length) ws"
  shows "subtract_weights ws nw = Inr (map2 (map2 (map2 num_sub)) ws nw)"
proof -
  from assms have len: "length nw = length ws"
    by (rule map_eq_imp_length_eq)
  have rows: "map length (nw ! k) = map length (ws ! k)" if "k < length ws" for k
    using arg_cong[OF assms, of "\<lambda>xs. xs ! k"] that len by simp
  have row_len: "length (nw ! k) = length (ws ! k)" if "k < length ws" for k
    using rows[OF that] by (rule map_eq_imp_length_eq)
  have cols: "length (nw ! k ! i) = length (ws ! k ! i)" if "k < length ws" "i < length (ws ! k)" for k i
    using arg_cong[OF rows[OF that(1)], of "\<lambda>xs. xs ! i"] that row_len[OF that(1)] by simp
  show ?thesis
    unfolding subtract_weights_def Array_mapE_def
  proof (rule mapE_from_zip)
    show "length ws \<le> length nw" by (simp add: len)
    fix k assume k: "k < length ws"
    show "mapE_from 0 (\<lambda>w1 i. mapE_from 0 (\<lambda>w j. and_then (lookup nw (0 + k)) (\<lambda>nk.
             and_then (lookup nk i) (\<lambda>nki. Inr (num_sub w (num_at nki j))))) w1) (ws ! k) =
          Inr (map2 (map2 num_sub) (ws ! k) (nw ! k))"
    proof (rule mapE_from_zip)
      show "length (ws ! k) \<le> length (nw ! k)" by (simp add: row_len[OF k])
      fix i assume i: "i < length (ws ! k)"
      show "mapE_from 0 (\<lambda>w j. and_then (lookup nw (0 + k)) (\<lambda>nk.
               and_then (lookup nk (0 + i)) (\<lambda>nki. Inr (num_sub w (num_at nki j))))) (ws ! k ! i) =
            Inr (map2 num_sub (ws ! k ! i) (nw ! k ! i))"
      proof (rule mapE_from_zip)
        show "length (ws ! k ! i) \<le> length (nw ! k ! i)" by (simp add: cols[OF k i])
        fix j assume j: "j < length (ws ! k ! i)"
        with k i show "and_then (lookup nw (0 + k)) (\<lambda>nk. and_then (lookup nk (0 + i))
                 (\<lambda>nki. Inr (num_sub (ws ! k ! i ! j) (num_at nki (0 + j))))) =
               Inr (num_sub (ws ! k ! i ! j) (nw ! k ! i ! j))"
          by (simp add: lookup_def num_at_def len row_len cols)
      qed
    qed
  qed
qed

lemma subtract_biases_eq:
  assumes "length nb = length bs" and "\<And>k. k < length bs \<Longrightarrow> length (bs ! k) \<le> length (nb ! k)"
  shows "subtract_biases bs nb = Inr (map2 (map2 num_sub) bs nb)"
  unfolding subtract_biases_def Array_mapE_def
proof (rule mapE_from_zip)
  show "length bs \<le> length nb" by (simp add: assms(1))
  fix k assume k: "k < length bs"
  show "mapE_from 0 (\<lambda>b i. and_then (lookup nb (0 + k)) (\<lambda>nk. Inr (num_sub b (num_at nk i)))) (bs ! k) =
        Inr (map2 num_sub (bs ! k) (nb ! k))"
  proof (rule mapE_from_zip)
    show "length (bs ! k) \<le> length (nb ! k)" by (rule assms(2)[OF k])
    fix i assume "i < length (bs ! k)"
    with k assms(2)[OF k] show "and_then (lookup nb (0 + k)) (\<lambda>nk. Inr (num_sub (bs ! k ! i) (num_at nk (0 + i)))) =
        Inr (num_sub (bs ! k ! i) (nb ! k ! i))"
      by (simp add: lookup_def num_at_def assms(1))
  qed
qed

lemma subtract_biases_Inr:
  assumes "length bs \<le> length nb"
  shows "subtract_biases bs nb =
           Inr (map_from 0 (\<lambda>b0 k. map_from 0 (\<lambda>b i. num_sub b (num_at (nb ! k) i)) b0) bs)"
  unfolding subtract_biases_def Array_mapE_def
proof (rule mapE_from_eq_pure)
  fix k assume "k < length bs"
  with assms have "lookup nb (0 + k) = Inr (nb ! (0 + k))"
    by (simp add: lookup_def)
  then show "mapE_from 0 (\<lambda>b i. and_then (lookup nb (0 + k)) (\<lambda>nk. Inr (num_sub b (num_at nk i)))) (bs ! k) =
        Inr (map_from 0 (\<lambda>b i. num_sub b (num_at (nb ! (0 + k)) i)) (bs ! k))"
    by (simp add: mapE_from_eq_pure)
qed

text \<open>On any network, the update that follows a mean gradient does not throw.\<close>

lemma update_after_mean:
  assumes "getMeanGradient net input target = Inr g"
  obtains w' b' where "subtract_weights (weights net) (nabla_w g) = Inr w'"
    "subtract_biases (biases net) (nabla_b g) = Inr b'"
proof -
  from getMeanGradient_shape[OF assms]
  have "map (map length) (nabla_w g) = map (map length) (weights net)"
    and "length (biases net) \<le> length (nabla_b g)"
    by simp_all
  from subtract_weights_eq[OF this(1)] subtract_biases_Inr[OF this(2)] show thesis
    by (rule that)
qed

text \<open>The update of one batch, on a network that satisfies the shape invariants.\<close>

lemma update_is_subtract_gradient:
  assumes "network_inv sizes net" and "getMeanGradient net input target = Inr g"
  shows "subtract_weights (weights net) (nabla_w g) = Inr (weights (spec_subtract_gradient net g))"
    and "subtract_biases (biases net) (nabla_b g) = Inr (biases (spec_subtract_gradient net g))"
    and "net\<lparr>weights := weights (spec_subtract_gradient net g), biases := biases (spec_subtract_gradient net g)\<rparr>
           = spec_subtract_gradient net g"
    and "network_inv sizes (spec_subtract_gradient net g)"
proof -
  from getMeanGradient_shape[OF assms(2)]
  have w: "map (map length) (nabla_w g) = map (map length) (weights net)"
    and b: "length (nabla_b g) = length (biases net)"
    by simp_all
  note bl = getMeanGradient_bias_lengths[OF assms]
  from subtract_weights_eq[OF w]
  show "subtract_weights (weights net) (nabla_w g) = Inr (weights (spec_subtract_gradient net g))"
    by (simp add: spec_subtract_gradient_def)
  from subtract_biases_eq[OF b bl]
  show "subtract_biases (biases net) (nabla_b g) = Inr (biases (spec_subtract_gradient net g))"
    by (simp add: spec_subtract_gradient_def)
  show "net\<lparr>weights := weights (spec_subtract_gradient net g), biases := biases (spec_subtract_gradient net g)\<rparr>
           = spec_subtract_gradient net g"
    by (simp add: spec_subtract_gradient_def)
  show "network_inv sizes (spec_subtract_gradient net g)"
  proof (rule network_inv_shape_cong[OF assms(1)])
    show "map (map length) (weights (spec_subtract_gradient net g)) = map (map length) (weights net)"
      using map2_matrices_shape[OF w] by (simp add: spec_subtract_gradient_def)
    show "map length (biases (spec_subtract_gradient net g)) = map length (biases net)"
      using map2_biases_shape[OF b bl] by (simp add: spec_subtract_gradient_def)
    show "length (activations (spec_subtract_gradient net g)) = length (activations net)"
      by (simp add: spec_subtract_gradient_def)
  qed
qed

text \<open>
  Entry by entry: the update keeps every length and subtracts, at each position, the
  entry of the mean gradient at that position.
\<close>

lemma spec_subtract_gradient_entries:
  assumes "network_inv sizes net" and "getMeanGradient net inputs targets = Inr g"
  shows "map (map length) (weights (spec_subtract_gradient net g)) = map (map length) (weights net)"
    and "map length (biases (spec_subtract_gradient net g)) = map length (biases net)"
    and "k < length (weights net) \<Longrightarrow> i < length (weights net ! k) \<Longrightarrow> j < length (weights net ! k ! i) \<Longrightarrow>
           weights (spec_subtract_gradient net g) ! k ! i ! j =
             num_sub (weights net ! k ! i ! j) (nabla_w g ! k ! i ! j)"
    and "k < length (biases net) \<Longrightarrow> i < length (biases net ! k) \<Longrightarrow>
           biases (spec_subtract_gradient net g) ! k ! i = num_sub (biases net ! k ! i) (nabla_b g ! k ! i)"
proof -
  from getMeanGradient_shape[OF assms(2)]
  have w: "map (map length) (nabla_w g) = map (map length) (weights net)"
    and b: "length (nabla_b g) = length (biases net)"
    by simp_all
  note bl = getMeanGradient_bias_lengths[OF assms]
  show "map (map length) (weights (spec_subtract_gradient net g)) = map (map length) (weights net)"
    using map2_matrices_shape[OF w] by (simp add: spec_subtract_gradient_def)
  show "map length (biases (spec_subtract_gradient net g)) = map length (biases net)"
    using map2_biases_shape[OF b bl] by (simp add: spec_subtract_gradient_def)
  from w have len: "length (nabla_w g) = length (weights net)"
    by (rule map_eq_imp_length_eq)
  show "weights (spec_subtract_gradient net g) ! k ! i ! j =
             num_sub (weights net ! k ! i ! j) (nabla_w g ! k ! i ! j)"
    if k: "k < length (weights net)" and i: "i < length (weights net ! k)"
      and j: "j < length (weights net ! k ! i)"
  proof -
    from arg_cong[OF w, of "\<lambda>xs. xs ! k"] k len
    have rows: "map length (nabla_w g ! k) = map length (weights net ! k)"
      by simp
    then have rl: "length (nabla_w g ! k) = length (weights net ! k)"
      by (rule map_eq_imp_length_eq)
    from arg_cong[OF rows, of "\<lambda>xs. xs ! i"] i rl
    have "length (nabla_w g ! k ! i) = length (weights net ! k ! i)"
      by simp
    with k i j len rl show ?thesis
      by (simp add: spec_subtract_gradient_def)
  qed
  show "biases (spec_subtract_gradient net g) ! k ! i = num_sub (biases net ! k ! i) (nabla_b g ! k ! i)"
    if k: "k < length (biases net)" and i: "i < length (biases net ! k)"
    using k i b bl[OF k] by (simp add: spec_subtract_gradient_def)
qed

lemma gradientDescend_loop_batches:
  "network_inv sizes net \<Longrightarrow> length input = length target \<Longrightarrow>
     gradientDescend_loop net input target n = spec_gradientDescend net (drop n (zip input target))"
proof (induction net input target n rule: gradientDescend_loop.induct)
  case (1 net input target n)
  show ?case
  proof (cases "n < length input")
    case False
    then show ?thesis by simp
  next
    case True
    with "1.prems"(2) have "n < length (zip input target)"
      by simp
    from Cons_nth_drop_Suc[OF this] this have batches:
      "drop n (zip input target) = (input ! n, target ! n) # drop (n + 1) (zip input target)"
      by simp
    show ?thesis
    proof (cases "getMeanGradient net (input ! n) (target ! n)")
      case (Inl e)
      with True batches show ?thesis by simp
    next
      case (Inr g)
      note u = update_is_subtract_gradient[OF "1.prems"(1) Inr]
      from "1.IH"[OF True Inr u(1,2)] u(3,4) "1.prems"(2)
      have "gradientDescend_loop (spec_subtract_gradient net g) input target (n + 1) =
              spec_gradientDescend (spec_subtract_gradient net g) (drop (n + 1) (zip input target))"
        by simp
      with True Inr u(1,2,3) batches show ?thesis
        by (subst gradientDescend_loop.simps) simp
    qed
  qed
qed

lemma spec_gradientDescend_keeps_inv:
  "network_inv sizes net \<Longrightarrow> network_inv sizes (snd (spec_gradientDescend net batches))"
proof (induction batches arbitrary: net)
  case Nil
  then show ?case by simp
next
  case (Cons batch batches)
  obtain inputs targets where batch: "batch = (inputs, targets)" by (cases batch)
  show ?case
  proof (cases "getMeanGradient net inputs targets")
    case (Inl e)
    with Cons.prems show ?thesis by (simp add: batch)
  next
    case (Inr g)
    from Cons.IH[OF update_is_subtract_gradient(4)[OF Cons.prems Inr]] Inr show ?thesis
      by (simp add: batch)
  qed
qed

lemma gradientDescend_loop_fails:
  "gradientDescend_loop net input target n = (Some e, net') \<Longrightarrow>
     \<exists>m. n \<le> m \<and> m < length input \<and>
         gradientDescend_loop net (take m input) (take m target) n = (None, net') \<and>
         getMeanGradient net' (input ! m) (target ! m) = Inl e"
proof (induction net input target n rule: gradientDescend_loop.induct)
  case (1 net input target n)
  from "1.prems" have n: "n < length input"
    by (auto split: if_splits)
  show ?case
  proof (cases "getMeanGradient net (input ! n) (target ! n)")
    case (Inl e0)
    with "1.prems" n have "e = e0" "net' = net"
      by simp_all
    moreover have "gradientDescend_loop net (take n input) (take n target) n = (None, net)"
      by simp
    ultimately show ?thesis
      using n Inl by blast
  next
    case (Inr g)
    from Inr obtain w' b' where w': "subtract_weights (weights net) (nabla_w g) = Inr w'"
      and b': "subtract_biases (biases net) (nabla_b g) = Inr b'"
      by (rule update_after_mean)
    from "1.prems" n Inr w' b'
    have rest: "gradientDescend_loop (net\<lparr>weights := w', biases := b'\<rparr>) input target (n + 1) = (Some e, net')"
      by simp
    from "1.IH"[OF n Inr w' b' rest] obtain m where m: "n + 1 \<le> m" "m < length input"
      and pre: "gradientDescend_loop (net\<lparr>weights := w', biases := b'\<rparr>) (take m input) (take m target) (n + 1)
                  = (None, net')"
      and fails: "getMeanGradient net' (input ! m) (target ! m) = Inl e"
      by blast
    from m have "n < length (take m input)" "take m input ! n = input ! n" "take m target ! n = target ! n"
      by simp_all
    with Inr w' b' pre
    have "gradientDescend_loop net (take m input) (take m target) n = (None, net')"
      by (subst gradientDescend_loop.simps) simp
    with m fails show ?thesis
      by (intro exI[of _ m]) simp
  qed
qed

lemma descend_fails_in_second_batch:
  "gradientDescend (no_input_net rnd) [[[]], [[]]] [[[Val 5]], []] =
     (Some LengthMismatch,
      (no_input_net rnd)\<lparr>weights := [[], [[], []], [[Val 5, Val 9]]],
                         biases := [[], [Val 5, Val 10], [Val 4]]\<rparr>)"
  by (simp add: no_input_net_eq forward_defs backward_defs descend_defs)

text \<open>
  C6. The claim: whenever \<open>gradientDescend\<close> throws, at any point of its run, the
  weights and biases after the call are those before the call. The code updates the
  parameters batch by batch and undoes nothing, so the claim fails as soon as a batch
  after the first throws (below: the second batch pairs one input with no target, and
  the update of the first batch stays). What holds: when \<open>gradientDescend\<close> throws,
  either the two outer lists differ in length and the network is unchanged, or the
  throw is that of \<open>getMeanGradient\<close> on some batch \<open>n\<close>, and the network is the one that
  \<open>gradientDescend\<close> on the first \<open>n\<close> batches alone produces; in particular it is
  unchanged when the first batch throws. The other operations are functions of the
  network: they cannot change it.
\<close>

theorem gradientDescend_failure_state:
  assumes "gradientDescend net input target = (Some e, net')"
  shows "(length input \<noteq> length target \<and> e = LengthMismatch \<and> net' = net) \<or>
         (\<exists>n<length input.
            gradientDescend net (take n input) (take n target) = (None, net') \<and>
            getMeanGradient net' (input ! n) (target ! n) = Inl e)"
proof (cases "length input = length target")
  case False
  with assms show ?thesis
    by (simp add: gradientDescend_def)
next
  case True
  with assms have "gradientDescend_loop net input target 0 = (Some e, net')"
    by (simp add: gradientDescend_def)
  from gradientDescend_loop_fails[OF this] obtain m where "m < length input"
    and "gradientDescend_loop net (take m input) (take m target) 0 = (None, net')"
    and "getMeanGradient net' (input ! m) (target ! m) = Inl e"
    by blast
  with True show ?thesis
    by (auto simp: gradientDescend_def)
qed

theorem gradientDescend_failure_state_witness:
  "gradientDescend (no_input_net fixed_draws) [[[]], [[]]] [[[Val 5]], []] =
     (Some LengthMismatch,
      (no_input_net fixed_draws)\<lparr>weights := [[], [[], []], [[Val 5, Val 9]]],
                                 biases := [[], [Val 5, Val 10], [Val 4]]\<rparr>) \<and>
   gradientDescend (no_input_net fixed_draws) (take 1 [[[]], [[]]]) (take 1 [[[Val 5]], []]) =
     (None,
      (no_input_net fixed_draws)\<lparr>weights := [[], [[], []], [[Val 5, Val 9]]],
                                 biases := [[], [Val 5, Val 10], [Val 4]]\<rparr>) \<and>
   (\<exists>n<length [[[]], [[]::number list]].
      gradientDescend (no_input_net fixed_draws) (take n [[[]], [[]]]) (take n [[[Val 5]], []]) =
        (None,
         (no_input_net fixed_draws)\<lparr>weights := [[], [[], []], [[Val 5, Val 9]]],
                                    biases := [[], [Val 5, Val 10], [Val 4]]\<rparr>) \<and>
      getMeanGradient
        ((no_input_net fixed_draws)\<lparr>weights := [[], [[], []], [[Val 5, Val 9]]],
                                    biases := [[], [Val 5, Val 10], [Val 4]]\<rparr>)
        ([[[]], [[]]] ! n) ([[[Val 5]], []] ! n) = Inl LengthMismatch)"
proof -
  note run = descend_fails_in_second_batch[of fixed_draws]
  have first: "gradientDescend (no_input_net fixed_draws) (take 1 [[[]], [[]]]) (take 1 [[[Val 5]], []]) =
     (None,
      (no_input_net fixed_draws)\<lparr>weights := [[], [[], []], [[Val 5, Val 9]]],
                                 biases := [[], [Val 5, Val 10], [Val 4]]\<rparr>)"
    by (simp add: no_input_net_eq forward_defs backward_defs descend_defs)
  from gradientDescend_failure_state[OF run] run first show ?thesis
    by simp
qed

theorem gradientDescend_keeps_earlier_updates:
  "gradientDescend (no_input_net fixed_draws) [[[]], [[]]] [[[Val 5]], []] =
     (Some LengthMismatch,
      (no_input_net fixed_draws)\<lparr>weights := [[], [[], []], [[Val 5, Val 9]]],
                                 biases := [[], [Val 5, Val 10], [Val 4]]\<rparr>) \<and>
   weights (no_input_net fixed_draws) \<noteq> [[], [[], []], [[Val 5, Val 9]]] \<and>
   biases (no_input_net fixed_draws) \<noteq> [[], [Val 5, Val 10], [Val 4]]"
  by (simp add: descend_fails_in_second_batch) (simp add: no_input_net_eq)

text \<open>One batch: the update is the subtraction of the mean gradient of that batch.\<close>

lemma gradientDescend_one_batch:
  assumes "network_inv sizes net" and "getMeanGradient net inputs targets = Inr g"
  shows "gradientDescend net [inputs] [targets] = (None, spec_subtract_gradient net g)"
proof -
  have "length [inputs] = length [targets]" by simp
  from gradientDescend_loop_batches[OF assms(1) this, of 0] assms(2) show ?thesis
    by (simp add: gradientDescend_def)
qed

text \<open>
  On every network that satisfies the shape invariants, \<open>gradientDescend\<close> on two
  lists of batches of the same length is \<open>spec_gradientDescend\<close> on the list of their
  pairs: the batches are taken in the order given; for each one the mean gradient is
  computed on the network as the batches before have left it, and is subtracted
  entry by entry, unscaled, from the weights and the biases; the first batch whose
  mean gradient throws ends the run.
\<close>

lemma gradientDescend_refines_spec:
  assumes "network_inv sizes net" and "length input = length target"
  shows "gradientDescend net input target = spec_gradientDescend net (zip input target)"
  using gradientDescend_loop_batches[OF assms, of 0] assms(2)
  by (simp add: gradientDescend_def)

text \<open>
  Two batches that do not throw, on the network with no input neuron: the second
  mean gradient is computed on the parameters the first update left.
\<close>

lemma gradientDescend_two_batches:
  "gradientDescend (no_input_net rnd) [[[]], [[]]] [[[Val 5]], [[Val 5]]] =
     (None,
      (no_input_net rnd)\<lparr>weights := [[], [[], []], [[Val (- 1135), Val (- 2271)]]],
                         biases := [[], [Val (- 1135), Val (- 2270)], [Val (- 224)]]\<rparr>)"
  by (simp add: no_input_net_eq forward_defs backward_defs descend_defs)

text \<open>
  A batch whose first example is not empty throws in \<open>getMeanGradient\<close>; when it is
  the first batch, nothing is subtracted.
\<close>

lemma gradientDescend_rejects_first_batch:
  assumes "network_inv sizes net" and "x \<noteq> []" and "length xs = length ys"
    and "length input = length target"
  shows "gradientDescend net ((x # xs) # input) ((y # ys) # target) = (Some DimensionMismatch, net)"
  using getMeanGradient_rejects_first_example[OF assms(1-3)] assms(4)
  by (simp add: gradientDescend_def)

text \<open>
  C8. The claim: \<open>gradientDescend\<close> takes the batches in the order given, computes the
  mean gradient of each on the parameters the batches before have left, and subtracts
  it entry by entry, unscaled, from the weights and the biases. On the network of the
  concrete scenario, the one batch with the valid example \<open>[1, 2]\<close>, \<open>[5]\<close> gets no
  gradient and no update: \<open>gradientDescend\<close> throws the dimension mismatch of the input
  check and leaves the network as it was. So does the training example of the README,
  layers \<^verbatim>\<open>[2, linear], [3, reLU], [1, sigmoid]\<close> with two batches of one example each,
  whatever the random draws.
\<close>

theorem gradientDescend_valid_batch_throws:
  "gradientDescend (scenario_net rnd) [[[Val 1, Val 2]]] [[[Val 5]]] =
     (Some DimensionMismatch, scenario_net rnd) \<and>
   gradientDescend (new_Network rnd [(2, linear_act), (3, reLU), (1, sigmoid)])
       [[[Val 0.5, Val (- 0.3)]], [[Val 0.2, Val 0.4]]] [[[Val 0.8]], [[Val 0.6]]] =
     (Some DimensionMismatch, new_Network rnd [(2, linear_act), (3, reLU), (1, sigmoid)])"
  by (simp add: scenario_net_eq new_Network_fields gradientDescend_def getMeanGradient_def
      Array_mapE_def getGradient_def lookup_def)

end
